theory Spec2Isabelle
  imports Complex_Main "HOL-Library.Sublist" "HOL-Library.AList"
begin

section \<open>Python values\<close>

text \<open>
  A Python \<open>str\<close> is a sequence of Unicode code points: \<open>len\<close> and slicing count code
  points, and the program's texts are mostly Chinese. A string is therefore a list of
  code points; \<open>ascii\<close> embeds the ASCII literals of the source.
\<close>

type_synonym pystr = "nat list"

definition ascii :: "string \<Rightarrow> pystr" where
  "ascii s = map of_char s"

text \<open>
  The values that \<open>json.load\<close> produces and \<open>json.dump\<close> accepts. A dict is an association
  list in insertion order, read with \<open>map_of\<close> and written with \<open>AList.update\<close> (replace in
  place, or append). Numbers are integers: no modelled operation looks inside a number.
  \<open>JNull\<close> is also Python's \<open>None\<close>.
\<close>

datatype json =
    JNull
  | JBool bool
  | JInt int
  | JStr pystr
  | JList "json list"
  | JObj "(pystr \<times> json) list"

type_synonym dict = "(pystr \<times> json) list"

datatype py_exn =
    KeyError
  | IndexError
  | TypeError
  | AttributeError
  | UnicodeDecodeError
  | RequestException
  | RateLimitExceeded
  | ConnectionError
  | ValueError

text \<open>\<open>k in x\<close> for a str \<open>k\<close>: key of a dict, element of a list, substring of a str.\<close>

fun contains :: "json \<Rightarrow> pystr \<Rightarrow> py_exn + bool" where
  "contains (JObj kvs) k = Inr (k \<in> set (map fst kvs))"
| "contains (JList xs) k = Inr (JStr k \<in> set xs)"
| "contains (JStr s) k = Inr (sublist k s)"
| "contains _ k = Inl TypeError"

text \<open>\<open>x[k]\<close> for a str \<open>k\<close>: only a dict can be indexed by a str.\<close>

fun getitem :: "json \<Rightarrow> pystr \<Rightarrow> py_exn + json" where
  "getitem (JObj kvs) k = (case map_of kvs k of None \<Rightarrow> Inl KeyError | Some v \<Rightarrow> Inr v)"
| "getitem _ k = Inl TypeError"

text \<open>\<open>x[0]\<close>: a dict decoded from JSON has str keys only, so \<open>0\<close> is never one.\<close>

fun getitem0 :: "json \<Rightarrow> py_exn + json" where
  "getitem0 (JList xs) = (case xs of [] \<Rightarrow> Inl IndexError | x # _ \<Rightarrow> Inr x)"
| "getitem0 (JStr s) = (case s of [] \<Rightarrow> Inl IndexError | c # _ \<Rightarrow> Inr (JStr [c]))"
| "getitem0 (JObj kvs) = Inl KeyError"
| "getitem0 _ = Inl TypeError"

fun py_len :: "json \<Rightarrow> py_exn + nat" where
  "py_len (JList xs) = Inr (length xs)"
| "py_len (JStr s) = Inr (length s)"
| "py_len (JObj kvs) = Inr (length kvs)"
| "py_len _ = Inl TypeError"

fun truthy :: "json \<Rightarrow> bool" where
  "truthy JNull = False"
| "truthy (JBool b) = b"
| "truthy (JInt n) = (n \<noteq> 0)"
| "truthy (JStr s) = (s \<noteq> [])"
| "truthy (JList xs) = (xs \<noteq> [])"
| "truthy (JObj kvs) = (kvs \<noteq> [])"

text \<open>\<open>x.get(k, d)\<close>: a method of dicts only.\<close>

fun dict_get :: "json \<Rightarrow> pystr \<Rightarrow> json \<Rightarrow> py_exn + json" where
  "dict_get (JObj kvs) k d = Inr (case map_of kvs k of None \<Rightarrow> d | Some v \<Rightarrow> v)"
| "dict_get _ k d = Inl AttributeError"

text \<open>\<open>isinstance(x, dict)\<close>.\<close>

fun is_dict :: "json \<Rightarrow> bool" where
  "is_dict (JObj kvs) = True"
| "is_dict _ = False"

text \<open>\<open>s.split(sep)\<close> for a one-character separator.\<close>

fun split_on :: "nat \<Rightarrow> pystr \<Rightarrow> pystr list" where
  "split_on d [] = [[]]"
| "split_on d (c # cs) =
     (if c = d then [] # split_on d cs
      else (case split_on d cs of [] \<Rightarrow> [[c]] | w # ws \<Rightarrow> (c # w) # ws))"

section \<open>ConfigManager\<close>

definition DEFAULT_CONFIG :: dict where
  "DEFAULT_CONFIG =
     [(ascii ''api_key'', JStr []),
      (ascii ''language'', JStr (ascii ''zh-CN'')),
      (ascii ''theme'', JStr (ascii ''light'')),
      (ascii ''model'', JStr (ascii ''deepseek-chat'')),
      (ascii ''stream'', JBool True),
      (ascii ''update_interval'', JInt 100),
      (ascii ''history'', JList []),
      (ascii ''current_session'', JList []),
      (ascii ''user'', JObj
         [(ascii ''username'', JStr []),
          (ascii ''login_type'', JStr (ascii ''manual'')),
          (ascii ''last_login'', JStr [])])]"

text \<open>
  The backing file \<open>config.json\<close>: absent, present but not loadable (\<open>open\<close> or
  \<open>json.load\<close> raises), or holding a JSON document. \<open>json.dump\<close> followed by \<open>json.load\<close>
  gives back the value written, so the file's content is the document itself.
\<close>

datatype file_state = Missing | Unreadable | Doc json

text \<open>
  How a write ends: it succeeds, \<open>open\<close> raises (the file stays as it was), or
  \<open>json.dump\<close> raises after \<open>open\<close> has truncated the file (a partial document, which
  no later load can read). \<open>save_config\<close> catches and prints either exception.
\<close>

datatype write_fault = NoFault | OpenFails | DumpFails

record config_manager =
  config :: dict
  config_file :: file_state
  fault :: write_fault

text \<open>
  The value \<open>load_config\<close> stores for a key found in the loaded document (lines
  62-65): when the default and the loaded value are both dicts,
  \<open>{**DEFAULT_CONFIG[key], **loaded_config[key]}\<close>, else the loaded value.
\<close>

definition merged_value :: "pystr \<Rightarrow> json \<Rightarrow> json" where
  "merged_value key v =
     (case (map_of DEFAULT_CONFIG key, v) of
        (Some (JObj d), JObj p) \<Rightarrow> JObj (AList.merge d p)
      | _ \<Rightarrow> v)"

text \<open>One pass of the loop of \<open>load_config\<close> (lines 59-65) for one key of \<open>DEFAULT_CONFIG\<close>.\<close>

definition merge_entry :: "json \<Rightarrow> dict \<Rightarrow> pystr \<Rightarrow> py_exn + dict" where
  "merge_entry loaded cfg key =
     (case contains loaded key of
        Inl e \<Rightarrow> Inl e
      | Inr False \<Rightarrow> Inr cfg
      | Inr True \<Rightarrow>
          (case getitem loaded key of
             Inl e \<Rightarrow> Inl e
           | Inr v \<Rightarrow> Inr (AList.update key (merged_value key v) cfg)))"

fun merge_keys :: "json \<Rightarrow> dict \<Rightarrow> pystr list \<Rightarrow> py_exn + dict" where
  "merge_keys loaded cfg [] = Inr cfg"
| "merge_keys loaded cfg (k # ks) =
     (case merge_entry loaded cfg k of
        Inl e \<Rightarrow> Inl e
      | Inr cfg' \<Rightarrow> merge_keys loaded cfg' ks)"

text \<open>
  \<open>load_config\<close>: every exception inside the \<open>try\<close> (reading, decoding, or a document
  that is not a dict) ends in the defaults.
\<close>

definition load_config :: "file_state \<Rightarrow> dict" where
  "load_config f =
     (case f of
        Missing \<Rightarrow> DEFAULT_CONFIG
      | Unreadable \<Rightarrow> DEFAULT_CONFIG
      | Doc loaded \<Rightarrow>
          (case merge_keys loaded DEFAULT_CONFIG (map fst DEFAULT_CONFIG) of
             Inl e \<Rightarrow> DEFAULT_CONFIG
           | Inr cfg \<Rightarrow> cfg))"

text \<open>\<open>ConfigManager()\<close> on a given file system.\<close>

definition new_manager :: "file_state \<Rightarrow> write_fault \<Rightarrow> config_manager" where
  "new_manager f w = \<lparr>config = load_config f, config_file = f, fault = w\<rparr>"

definition save_config :: "config_manager \<Rightarrow> config_manager" where
  "save_config cm =
     (case fault cm of
        NoFault \<Rightarrow> cm\<lparr>config_file := Doc (JObj (config cm))\<rparr>
      | OpenFails \<Rightarrow> cm
      | DumpFails \<Rightarrow> cm\<lparr>config_file := Unreadable\<rparr>)"

text \<open>The loop of \<open>get\<close> over the dotted parts of the key.\<close>

fun get_path :: "json \<Rightarrow> pystr list \<Rightarrow> json \<Rightarrow> py_exn + json" where
  "get_path current [] dflt = Inr current"
| "get_path current (k # ks) dflt =
     (case contains current k of
        Inl e \<Rightarrow> Inl e
      | Inr False \<Rightarrow> Inr dflt
      | Inr True \<Rightarrow>
          (case getitem current k of
             Inl e \<Rightarrow> Inl e
           | Inr v \<Rightarrow> get_path v ks dflt))"

definition get :: "config_manager \<Rightarrow> pystr \<Rightarrow> py_exn + json" where
  "get cm key =
     get_path (JObj (config cm)) (split_on 46 key)
       (case map_of DEFAULT_CONFIG key of None \<Rightarrow> JNull | Some v \<Rightarrow> v)"

text \<open>
  A message as the program builds it: a dict from str to str
  (\<open>{"role": ..., "content": ...}\<close>). A conversation is a list of messages.
\<close>

type_synonym message = "(pystr \<times> pystr) list"

definition json_of_message :: "message \<Rightarrow> json" where
  "json_of_message m = JObj (map (\<lambda>(k, v). (k, JStr v)) m)"

definition default_title :: pystr where
  "default_title = [26080, 26631, 39064, 23545, 35805]"

text \<open>
  The title of a history entry (lines 105-109). \<open>session[0]\<close> raises \<open>IndexError\<close> on
  an empty list and \<open>["content"]\<close> raises \<open>KeyError\<close> when the key is absent; both are
  caught and give the default title.
\<close>

definition derive_title :: "message list \<Rightarrow> pystr" where
  "derive_title session =
     (case session of
        [] \<Rightarrow> default_title
      | m # _ \<Rightarrow>
          (case map_of m (ascii ''content'') of
             None \<Rightarrow> default_title
           | Some c \<Rightarrow> take 30 c @ (if length c > 30 then ascii ''...'' else [])))"

definition history_entry :: "message list \<Rightarrow> pystr \<Rightarrow> json" where
  "history_entry session now =
     JObj [(ascii ''title'', JStr (derive_title session)),
           (ascii ''timestamp'', JStr now),
           (ascii ''messages'', JList (map json_of_message session))]"

text \<open>
  \<open>add_to_history\<close>; \<open>now\<close> is the text of \<open>datetime.now().isoformat()\<close>. The method
  \<open>insert\<close> exists on lists only.
\<close>

definition add_to_history ::
    "config_manager \<Rightarrow> message list \<Rightarrow> pystr \<Rightarrow> py_exn + config_manager" where
  "add_to_history cm session now =
     (if session = [] then Inr cm
      else
        (case map_of (config cm) (ascii ''history'') of
           None \<Rightarrow> Inl KeyError
         | Some (JList h) \<Rightarrow>
             (let h1 = history_entry session now # h;
                  h2 = (if length h1 > 50 then take 50 h1 else h1)
              in Inr (save_config
                        (cm\<lparr>config := AList.update (ascii ''history'') (JList h2) (config cm)\<rparr>)))
         | Some _ \<Rightarrow> Inl AttributeError))"

definition clear_current_session :: "config_manager \<Rightarrow> config_manager" where
  "clear_current_session cm =
     save_config (cm\<lparr>config := AList.update (ascii ''current_session'') (JList []) (config cm)\<rparr>)"

definition save_current_session :: "config_manager \<Rightarrow> json \<Rightarrow> config_manager" where
  "save_current_session cm msgs =
     save_config (cm\<lparr>config := AList.update (ascii ''current_session'') msgs (config cm)\<rparr>)"

text \<open>The history list of a store, when it is one.\<close>

definition history_of :: "config_manager \<Rightarrow> json list option" where
  "history_of cm =
     (case map_of (config cm) (ascii ''history'') of
        Some (JList h) \<Rightarrow> Some h
      | _ \<Rightarrow> None)"

text \<open>Several \<open>add_to_history\<close> calls in a row, each with its conversation and its clock text.\<close>

fun add_all ::
    "config_manager \<Rightarrow> (message list \<times> pystr) list \<Rightarrow> py_exn + config_manager" where
  "add_all cm [] = Inr cm"
| "add_all cm ((session, now) # rest) =
     (case add_to_history cm session now of
        Inl e \<Rightarrow> Inl e
      | Inr cm' \<Rightarrow> add_all cm' rest)"

section \<open>DeepSeekClient\<close>

definition startswith :: "pystr \<Rightarrow> pystr \<Rightarrow> bool" where
  "startswith s p = prefix p s"

text \<open>\<open>s.replace(old, new, 1)\<close>: the first occurrence of \<open>old\<close>, wherever it stands.\<close>

fun replace_first :: "pystr \<Rightarrow> pystr \<Rightarrow> pystr \<Rightarrow> pystr" where
  "replace_first old new [] = (if old = [] then new else [])"
| "replace_first old new (c # cs) =
     (if prefix old (c # cs) then new @ drop (length old) (c # cs)
      else c # replace_first old new cs)"

text \<open>The code points for which \<open>str.isspace\<close> holds; \<open>s.strip()\<close> removes them at both ends.\<close>

definition is_space :: "nat \<Rightarrow> bool" where
  "is_space c =
     (c \<in> set [9, 10, 11, 12, 13, 28, 29, 30, 31, 32, 133, 160, 5760, 8232, 8233, 8239, 8287, 12288]
      \<or> (8192 \<le> c \<and> c \<le> 8202))"

definition strip :: "pystr \<Rightarrow> pystr" where
  "strip s = rev (dropWhile is_space (rev (dropWhile is_space s)))"

text \<open>
  A chunk of \<open>response.iter_lines()\<close> after \<open>chunk.decode('utf-8')\<close>: bytes that are
  not UTF-8 (the decoding raises), or the decoded text; empty bytes are \<open>Line []\<close>.
  The iteration ends with the body, or with a \<open>RequestException\<close> when the connection
  breaks.
\<close>

datatype raw_line = BadUtf8 | Line pystr

datatype stream_end = EndOfStream | TransportFailure

text \<open>\<open>data_str\<close> of line 421.\<close>

definition data_str :: "pystr \<Rightarrow> pystr" where
  "data_str s = strip (replace_first (ascii ''data: '') [] s)"

text \<open>
  Lines 427-429: \<open>None\<close> when the record has no non-empty \<open>choices\<close>, else the
  \<open>content\<close> of the first choice's \<open>delta\<close>, whatever value it is.
\<close>

definition delta_content :: "json \<Rightarrow> py_exn + json option" where
  "delta_content data =
     (case contains data (ascii ''choices'') of
        Inl e \<Rightarrow> Inl e
      | Inr False \<Rightarrow> Inr None
      | Inr True \<Rightarrow>
          (case getitem data (ascii ''choices'') of
             Inl e \<Rightarrow> Inl e
           | Inr choices \<Rightarrow>
               (case py_len choices of
                  Inl e \<Rightarrow> Inl e
                | Inr n \<Rightarrow>
                    if n > 0 then
                      (case getitem0 choices of
                         Inl e \<Rightarrow> Inl e
                       | Inr choice \<Rightarrow>
                           (case dict_get choice (ascii ''delta'') (JObj []) of
                              Inl e \<Rightarrow> Inl e
                            | Inr delta \<Rightarrow>
                                (case dict_get delta (ascii ''content'') (JStr []) of
                                   Inl e \<Rightarrow> Inl e
                                 | Inr content \<Rightarrow> Inr (Some content))))
                    else Inr None)))"

text \<open>
  \<open>process_stream\<close>, a generator: the values it yields, in order, and how the iteration
  ends (\<open>None\<close>: it is exhausted; \<open>Some e\<close>: it raises \<open>e\<close>). \<open>loads\<close> is
  \<open>json.loads\<close>, \<open>None\<close> where it raises \<open>JSONDecodeError\<close>; that exception alone is
  caught (and printed), every other one leaves the generator.
\<close>

fun process_stream ::
    "(pystr \<Rightarrow> json option) \<Rightarrow> raw_line list \<Rightarrow> stream_end \<Rightarrow> json list \<times> py_exn option" where
  "process_stream loads [] EndOfStream = ([], None)"
| "process_stream loads [] TransportFailure = ([], Some RequestException)"
| "process_stream loads (BadUtf8 # rest) e = ([], Some UnicodeDecodeError)"
| "process_stream loads (Line s # rest) e =
     (if s = [] then process_stream loads rest e
      else if \<not> startswith s (ascii ''data:'') then process_stream loads rest e
      else if data_str s = ascii ''[DONE]'' then ([], None)
      else
        (case loads (data_str s) of
           None \<Rightarrow> process_stream loads rest e
         | Some data \<Rightarrow>
             (case delta_content data of
                Inl ex \<Rightarrow> ([], Some ex)
              | Inr None \<Rightarrow> process_stream loads rest e
              | Inr (Some content) \<Rightarrow>
                  if truthy content
                  then (case process_stream loads rest e of (ys, r) \<Rightarrow> (content # ys, r))
                  else process_stream loads rest e)))"

record client =
  api_key :: pystr
  last_request_time :: real
  min_request_interval :: real

text \<open>\<open>DeepSeekClient(api_key)\<close>. Clock readings (\<open>time.time()\<close>) are exact reals here.\<close>

definition new_client :: "pystr \<Rightarrow> client" where
  "new_client k = \<lparr>api_key = k, last_request_time = 0, min_request_interval = 1\<rparr>"

text \<open>One \<open>requests.post\<close>: the bearer credential of the headers and the JSON body.\<close>

record http_post =
  post_bearer :: pystr
  post_model :: json
  post_messages :: "json list"
  post_temperature :: real
  post_max_tokens :: int
  post_stream :: json

text \<open>
  What the network answers to a POST: \<open>requests.post\<close>, \<open>raise_for_status\<close> or
  \<open>response.json()\<close> raises a \<open>RequestException\<close>, or there is a response, read as
  lines when streaming and as one JSON value otherwise.
\<close>

record http_response =
  resp_lines :: "raw_line list"
  resp_end :: stream_end
  resp_json :: json

datatype post_result = PostRaises | Responds http_response

text \<open>\<open>data["choices"][0]["message"]["content"]\<close> of line 408.\<close>

definition message_content :: "json \<Rightarrow> py_exn + json" where
  "message_content data =
     (case getitem data (ascii ''choices'') of
        Inl e \<Rightarrow> Inl e
      | Inr choices \<Rightarrow>
          (case getitem0 choices of
             Inl e \<Rightarrow> Inl e
           | Inr choice \<Rightarrow>
               (case getitem choice (ascii ''message'') of
                  Inl e \<Rightarrow> Inl e
                | Inr m \<Rightarrow> getitem m (ascii ''content''))))"

text \<open>The two \<open>except\<close> clauses of \<open>chat\<close> (lines 410-413).\<close>

fun chat_except :: "py_exn \<Rightarrow> py_exn" where
  "chat_except RequestException = ConnectionError"
| "chat_except KeyError = ValueError"
| "chat_except IndexError = ValueError"
| "chat_except e = e"

text \<open>
  \<open>chat\<close>, a generator, run from its first \<open>next()\<close>: \<open>now\<close> is the clock read then,
  \<open>net\<close> the network's answer to the POST if one is made. The result is the client
  afterwards, the POSTs issued, the values yielded and how the iteration ends.
\<close>

definition chat ::
    "(pystr \<Rightarrow> json option) \<Rightarrow> client \<Rightarrow> real \<Rightarrow> json list \<Rightarrow> json \<Rightarrow> json \<Rightarrow> post_result
       \<Rightarrow> client \<times> http_post list \<times> json list \<times> py_exn option" where
  "chat loads c now msgs model stream net =
     (if now - last_request_time c < min_request_interval c
      then (c, [], [], Some RateLimitExceeded)
      else
        (c\<lparr>last_request_time := now\<rparr>,
         [\<lparr>post_bearer = api_key c, post_model = model, post_messages = msgs,
           post_temperature = 7 / 10, post_max_tokens = 2048, post_stream = stream\<rparr>],
         (case net of
            PostRaises \<Rightarrow> ([], Some ConnectionError)
          | Responds r \<Rightarrow>
              if truthy stream
              then (case process_stream loads (resp_lines r) (resp_end r) of
                      (ys, x) \<Rightarrow> (ys, map_option chat_except x))
              else (case message_content (resp_json r) of
                      Inl e \<Rightarrow> ([], Some (chat_except e))
                    | Inr content \<Rightarrow> ([content], None)))))"

text \<open>Calls made one after another on the same client, each at its time with its answer.\<close>

record call =
  call_time :: real
  call_messages :: "json list"
  call_model :: json
  call_stream :: json
  call_net :: post_result

fun chat_seq :: "(pystr \<Rightarrow> json option) \<Rightarrow> client \<Rightarrow> call list \<Rightarrow> client" where
  "chat_seq loads c [] = c"
| "chat_seq loads c (k # ks) =
     chat_seq loads
       (fst (chat loads c (call_time k) (call_messages k) (call_model k) (call_stream k) (call_net k)))
       ks"

text \<open>
  The wire format of a streamed response, as the specification words it, which
  \<open>process_stream\<close> is compared with. A record is a line prefixed \<open>data:\<close>; its
  payload is what follows the prefix, without the white space around it; the payload
  \<open>[DONE]\<close> is the sentinel, and the records before the first sentinel count. A record
  is well formed when its payload decodes to an object
  \<open>{choices: [{delta: {content}}]}\<close>, where \<open>choices\<close> may be absent or empty,
  \<open>delta\<close> absent, and \<open>content\<close> absent or null (the record then carries no
  text); \<open>record_text\<close> is its text.
\<close>

definition record_payload :: "pystr \<Rightarrow> pystr" where
  "record_payload s = strip (drop (length (ascii ''data:'')) s)"

fun payloads :: "raw_line list \<Rightarrow> pystr list" where
  "payloads [] = []"
| "payloads (BadUtf8 # rest) = payloads rest"
| "payloads (Line s # rest) =
     (if startswith s (ascii ''data:'') then record_payload s # payloads rest
      else payloads rest)"

text \<open>
  A chunk of a response that consists of records written with a space after the prefix:
  text that is empty (the blank line between two records) or starts with \<open>data: \<close>.
\<close>

fun data_line :: "raw_line \<Rightarrow> bool" where
  "data_line BadUtf8 = False"
| "data_line (Line s) = (s = [] \<or> startswith s (ascii ''data: ''))"

definition before_done :: "pystr list \<Rightarrow> pystr list" where
  "before_done ps = takeWhile (\<lambda>p. p \<noteq> ascii ''[DONE]'') ps"

fun content_text :: "json option \<Rightarrow> pystr option" where
  "content_text None = Some []"
| "content_text (Some JNull) = Some []"
| "content_text (Some (JStr s)) = Some s"
| "content_text (Some _) = None"

fun delta_text :: "json option \<Rightarrow> pystr option" where
  "delta_text None = Some []"
| "delta_text (Some (JObj d)) = content_text (map_of d (ascii ''content''))"
| "delta_text (Some _) = None"

fun choices_text :: "json option \<Rightarrow> pystr option" where
  "choices_text None = Some []"
| "choices_text (Some (JList [])) = Some []"
| "choices_text (Some (JList (JObj ch # others))) = delta_text (map_of ch (ascii ''delta''))"
| "choices_text (Some _) = None"

fun record_text :: "json \<Rightarrow> pystr option" where
  "record_text (JObj kvs) = choices_text (map_of kvs (ascii ''choices''))"
| "record_text _ = None"

definition well_formed :: "(pystr \<Rightarrow> json option) \<Rightarrow> pystr \<Rightarrow> bool" where
  "well_formed loads p = (case loads p of None \<Rightarrow> False | Some j \<Rightarrow> record_text j \<noteq> None)"

definition undecodable :: "(pystr \<Rightarrow> json option) \<Rightarrow> pystr \<Rightarrow> bool" where
  "undecodable loads p = (loads p = None)"

text \<open>The text a payload contributes: that of a well-formed record, else none.\<close>

definition payload_text :: "(pystr \<Rightarrow> json option) \<Rightarrow> pystr \<Rightarrow> pystr" where
  "payload_text loads p =
     (case loads p of
        None \<Rightarrow> []
      | Some j \<Rightarrow> (case record_text j of None \<Rightarrow> [] | Some t \<Rightarrow> t))"

definition content_deltas :: "(pystr \<Rightarrow> json option) \<Rightarrow> raw_line list \<Rightarrow> pystr list" where
  "content_deltas loads ls =
     map (payload_text loads)
       (filter (\<lambda>p. well_formed loads p \<and> payload_text loads p \<noteq> [])
          (before_done (payloads ls)))"


section \<open>ApiRequestThread\<close>

text \<open>
  The text of \<open>error_occurred\<close>: the fixed rate-limit message when \<open>str(e)\<close> contains
  \<open>Rate limit exceeded\<close> (only the exception of line 377 does), else the network-error
  message with \<open>str(e)\<close>.
\<close>

datatype error_msg = RateLimitMsg | NetworkErrorMsg py_exn

definition error_message :: "py_exn \<Rightarrow> error_msg" where
  "error_message e = (if e = RateLimitExceeded then RateLimitMsg else NetworkErrorMsg e)"

datatype signal = ResponseReceived pystr | ErrorOccurred error_msg | RequestFinished

record api_request_thread =
  thread_messages :: "json list"
  thread_model :: json
  thread_stream :: json
  stop_requested :: bool

text \<open>
  The body of a \<open>for\<close> loop of \<open>run\<close> without the stop test: every value is emitted
  through \<open>response_received\<close>, a \<open>pyqtSignal(str)\<close>, whose \<open>emit\<close> raises
  \<open>TypeError\<close> on a value that is not a str. The result is the signals emitted and the
  exception that ends the loop, if any (\<open>x\<close> is the generator's own end).
\<close>

fun emit_all :: "json list \<Rightarrow> py_exn option \<Rightarrow> signal list \<times> py_exn option" where
  "emit_all [] x = ([], x)"
| "emit_all (JStr s # ys) x = (case emit_all ys x of (sigs, r) \<Rightarrow> (ResponseReceived s # sigs, r))"
| "emit_all (y # ys) x = ([], Some TypeError)"

text \<open>
  The streaming loop (lines 452-455). \<open>stop_seen\<close> stands for the other thread:
  \<open>Some k\<close> when the loop, having passed \<open>k\<close> chunks on, finds \<open>stop_requested\<close> set
  at the next chunk and breaks (the chunk is dropped, the generator is not resumed);
  \<open>None\<close> when it never finds the flag set.
\<close>

definition stream_loop ::
    "json list \<Rightarrow> py_exn option \<Rightarrow> nat option \<Rightarrow> signal list \<times> py_exn option" where
  "stream_loop ys x stop_seen =
     (case stop_seen of
        None \<Rightarrow> emit_all ys x
      | Some k \<Rightarrow> if k < length ys then emit_all (take k ys) None else emit_all ys x)"

text \<open>
  \<open>run\<close>: the client afterwards, the POSTs issued and the signals emitted, in order.
  \<open>request_finished\<close> is emitted in the \<open>finally\<close> clause, so always and last.
\<close>

definition run ::
    "(pystr \<Rightarrow> json option) \<Rightarrow> client \<Rightarrow> real \<Rightarrow> post_result \<Rightarrow> nat option
       \<Rightarrow> api_request_thread \<Rightarrow> client \<times> http_post list \<times> signal list" where
  "run loads c now net stop_seen t =
     (if truthy (thread_stream t)
      then
        (case chat loads c now (thread_messages t) (thread_model t) (JBool True) net of
           (c', posts, ys, x) \<Rightarrow>
             (case stream_loop ys x stop_seen of
                (sigs, r) \<Rightarrow>
                  (c', posts,
                   sigs @ (case r of None \<Rightarrow> [] | Some e \<Rightarrow> [ErrorOccurred (error_message e)])
                     @ [RequestFinished])))
      else
        (case chat loads c now (thread_messages t) (thread_model t) (JBool False) net of
           (c', posts, ys, x) \<Rightarrow>
             (case emit_all ys x of
                (sigs, r) \<Rightarrow>
                  (c', posts,
                   sigs @ (case r of None \<Rightarrow> [] | Some e \<Rightarrow> [ErrorOccurred (error_message e)])
                     @ [RequestFinished]))))"

section \<open>DeepSeekApp\<close>

text \<open>
  The state of the main window that the exchange touches. The transcript widget
  \<open>history_text\<close> is display only and left out. \<open>alerts\<close> are the
  \<open>QMessageBox.critical\<close> dialogs shown and \<open>started\<close> the threads on which \<open>start()\<close>
  was called, both oldest first.
\<close>

datatype alert = NoApiKey | ApiError error_msg

record app =
  config_manager :: config_manager
  client :: "client option"
  messages :: "json list"
  streaming :: bool
  current_response :: pystr
  api_thread :: "api_request_thread option"
  input_entry :: pystr
  send_button_enabled :: bool
  stop_button_enabled :: bool
  alerts :: "alert list"
  started :: "api_request_thread list"

definition role_message :: "string \<Rightarrow> pystr \<Rightarrow> json" where
  "role_message r c = JObj [(ascii ''role'', JStr (ascii r)), (ascii ''content'', JStr c)]"

text \<open>\<open>get_user_info\<close>, for its effect on the store (its result is used for display only).\<close>

definition get_user_info :: "config_manager \<Rightarrow> config_manager" where
  "get_user_info cm =
     (if ascii ''user'' \<in> set (map fst (config cm)) then cm
      else save_config
             (cm\<lparr>config := AList.update (ascii ''user'')
                     (case map_of DEFAULT_CONFIG (ascii ''user'') of None \<Rightarrow> JNull | Some u \<Rightarrow> u)
                     (config cm)\<rparr>))"

text \<open>
  The value of \<open>get\<close> for a key without a dot, on which it cannot raise (see
  \<open>get_plain_key\<close> below).
\<close>

definition get_value :: "config_manager \<Rightarrow> pystr \<Rightarrow> json" where
  "get_value cm key = (case get cm key of Inl e \<Rightarrow> JNull | Inr v \<Rightarrow> v)"

text \<open>
  \<open>send_message\<close>. It tests the input and the client, and nothing else. The thread
  takes the conversation as it is when the thread is made.
\<close>

definition send_message :: "app \<Rightarrow> app" where
  "send_message a =
     (let user_input = strip (input_entry a) in
      if user_input = [] then a
      else if client a = None then a\<lparr>alerts := alerts a @ [NoApiKey]\<rparr>
      else
        (let msgs = messages a @ [role_message ''user'' user_input];
             cm = save_current_session (get_user_info (config_manager a)) (JList msgs);
             t = \<lparr>thread_messages = msgs,
                  thread_model = get_value cm (ascii ''model''),
                  thread_stream = get_value cm (ascii ''stream''),
                  stop_requested = False\<rparr>
         in a\<lparr>input_entry := [],
              messages := msgs,
              config_manager := cm,
              streaming := True,
              current_response := [],
              stop_button_enabled := True,
              send_button_enabled := False,
              api_thread := Some t,
              started := started a @ [t]\<rparr>))"

definition update_response :: "app \<Rightarrow> pystr \<Rightarrow> app" where
  "update_response a response = a\<lparr>current_response := current_response a @ response\<rparr>"

definition on_request_finished :: "app \<Rightarrow> app" where
  "on_request_finished a =
     (let a1 = a\<lparr>streaming := False, stop_button_enabled := False, send_button_enabled := True\<rparr> in
      if current_response a \<noteq> [] then
        (let msgs = messages a @ [role_message ''assistant'' (current_response a)] in
         a1\<lparr>messages := msgs,
             config_manager := save_current_session (config_manager a) (JList msgs)\<rparr>)
      else a1)"

definition on_api_error :: "app \<Rightarrow> error_msg \<Rightarrow> app" where
  "on_api_error a error_msg =
     a\<lparr>streaming := False, stop_button_enabled := False, send_button_enabled := True,
       alerts := alerts a @ [ApiError error_msg]\<rparr>"

definition stop_streaming :: "app \<Rightarrow> app" where
  "stop_streaming a =
     (case api_thread a of
        None \<Rightarrow> a
      | Some t \<Rightarrow>
          if streaming a then
            (let a1 = a\<lparr>api_thread := Some (t\<lparr>stop_requested := True\<rparr>),
                        streaming := False,
                        stop_button_enabled := False,
                        send_button_enabled := True\<rparr> in
             if current_response a \<noteq> [] then
               (let msgs = messages a @ [role_message ''assistant'' (current_response a)] in
                a1\<lparr>messages := msgs,
                    config_manager := save_current_session (config_manager a) (JList msgs)\<rparr>)
             else a1)
          else a)"

text \<open>The slots connected to the thread's signals in \<open>send_message\<close> (lines 1282-1284).\<close>

fun deliver :: "app \<Rightarrow> signal \<Rightarrow> app" where
  "deliver a (ResponseReceived s) = update_response a s"
| "deliver a (ErrorOccurred m) = on_api_error a m"
| "deliver a RequestFinished = on_request_finished a"

text \<open>
  What reaches the main thread, one event at a time: the user types, presses Return in
  the input line (\<open>returnPressed\<close> is connected to \<open>send_message\<close>, and the input line is
  never disabled), clicks Send or Stop (a disabled button gives no \<open>clicked\<close>), or a
  signal of the worker arrives.
\<close>

datatype ui_event = TypeText pystr | ReturnPressed | ClickSend | ClickStop | Worker signal

fun handle :: "app \<Rightarrow> ui_event \<Rightarrow> app" where
  "handle a (TypeText s) = a\<lparr>input_entry := s\<rparr>"
| "handle a ReturnPressed = send_message a"
| "handle a ClickSend = (if send_button_enabled a then send_message a else a)"
| "handle a ClickStop = (if stop_button_enabled a then stop_streaming a else a)"
| "handle a (Worker sg) = deliver a sg"

text \<open>The signals of the worker that \<open>send_message\<close> has just started, run on the app's client.\<close>

definition worker_signals ::
    "(pystr \<Rightarrow> json option) \<Rightarrow> real \<Rightarrow> post_result \<Rightarrow> nat option \<Rightarrow> app \<Rightarrow> signal list" where
  "worker_signals loads now net stop_seen a =
     (case (client a, api_thread a) of
        (Some c, Some t) \<Rightarrow> snd (snd (run loads c now net stop_seen t))
      | _ \<Rightarrow> [])"

text \<open>The conversation as the store holds it in memory, and as the file holds it.\<close>

definition stored_session :: "config_manager \<Rightarrow> json option" where
  "stored_session cm = map_of (config cm) (ascii ''current_session'')"

definition saved_session :: "config_manager \<Rightarrow> json option" where
  "saved_session cm =
     (case config_file cm of
        Doc (JObj kvs) \<Rightarrow> map_of kvs (ascii ''current_session'')
      | _ \<Rightarrow> None)"

text \<open>Concrete stores and documents used to run the model.\<close>

definition hi_message :: message where
  "hi_message = [(ascii ''role'', ascii ''user''), (ascii ''content'', ascii ''hi'')]"

definition long_message :: message where
  "long_message = [(ascii ''role'', ascii ''user''), (ascii ''content'', replicate 31 97)]"

definition bare_message :: message where
  "bare_message = [(ascii ''role'', ascii ''user'')]"

definition fresh_store :: config_manager where
  "fresh_store = new_manager Missing NoFault"

definition oversized_store :: config_manager where
  "oversized_store =
     new_manager
       (Doc (JObj [(ascii ''history'', JList (replicate 51 (history_entry [hi_message] [])))]))
       NoFault"

definition demo_lines :: "raw_line list" where
  "demo_lines =
     [Line [],
      Line (ascii ''data: {\"choices\":[{\"delta\":{\"content\":\"Hel\"}}]}''),
      Line (ascii ''data: {\"choices\":[{\"delta\":''),
      Line (ascii ''data: {\"choices\":[{\"delta\":{\"content\":\"\"}}]}''),
      Line (ascii ''data: {\"choices\":[{\"delta\":{\"content\":\"lo\"}}]}''),
      Line (ascii ''data: [DONE]''),
      Line (ascii ''data: {\"choices\":[{\"delta\":{\"content\":\"late\"}}]}'')]"

definition delta_record :: "pystr \<Rightarrow> json" where
  "delta_record t =
     JObj [(ascii ''choices'', JList [JObj [(ascii ''delta'', JObj [(ascii ''content'', JStr t)])]])]"

text \<open>A stand-in for \<open>json.loads\<close> that decodes the payloads of \<open>demo_lines\<close>.\<close>

definition demo_loads :: "pystr \<Rightarrow> json option" where
  "demo_loads =
     map_of
       [(ascii ''{\"choices\":[{\"delta\":{\"content\":\"Hel\"}}]}'', delta_record (ascii ''Hel'')),
        (ascii ''{\"choices\":[{\"delta\":{\"content\":\"\"}}]}'', delta_record []),
        (ascii ''{\"choices\":[{\"delta\":{\"content\":\"lo\"}}]}'', delta_record (ascii ''lo'')),
        (ascii ''{\"choices\":[{\"delta\":{\"content\":\"late\"}}]}'', delta_record (ascii ''late'')),
        (ascii ''5'', JInt 5)]"

definition demo_response :: http_response where
  "demo_response = \<lparr>resp_lines = demo_lines, resp_end = EndOfStream, resp_json = JNull\<rparr>"

definition call_at :: "real \<Rightarrow> call" where
  "call_at t =
     \<lparr>call_time = t, call_messages = [json_of_message hi_message],
      call_model = JStr (ascii ''deepseek-chat''), call_stream = JBool True,
      call_net = Responds demo_response\<rparr>"

text \<open>A client whose call at time 1000 was accepted and whose call at 1000.9 was rejected.\<close>

definition accepted_client :: client where
  "accepted_client = chat_seq demo_loads (new_client (ascii ''sk-1'')) [call_at 1000]"

definition busy_client :: client where
  "busy_client = chat_seq demo_loads accepted_client [call_at 1000.9]"

text \<open>
  The main window after start-up on a store that holds an API key and no session, the
  client not having sent a request in the last second.
\<close>

definition demo_app :: app where
  "demo_app =
     \<lparr>config_manager = new_manager (Doc (JObj [(ascii ''api_key'', JStr (ascii ''sk-1''))])) NoFault,
      client = Some (new_client (ascii ''sk-1'')),
      messages = [],
      streaming = False,
      current_response = [],
      api_thread = None,
      input_entry = [],
      send_button_enabled = True,
      stop_button_enabled = False,
      alerts = [],
      started = []\<rparr>"

text \<open>A response whose connection breaks after two fragments.\<close>

definition broken_response :: http_response where
  "broken_response =
     \<lparr>resp_lines =
        [Line (ascii ''data: {\"choices\":[{\"delta\":{\"content\":\"Hel\"}}]}''),
         Line (ascii ''data: {\"choices\":[{\"delta\":{\"content\":\"lo\"}}]}'')],
      resp_end = TransportFailure, resp_json = JNull\<rparr>"

definition partial_doc :: dict where
  "partial_doc =
     [(ascii ''api_key'', JStr (ascii ''sk-1'')),
      (ascii ''user'', JObj [(ascii ''username'', JStr (ascii ''bob''))])]"

definition unknown_key_doc :: dict where
  "unknown_key_doc =
     [(ascii ''api_key'', JStr (ascii ''sk-1'')),
      (ascii ''font_size'', JInt 12)]"

section \<open>Theorems\<close>

subsection \<open>Loading the configuration\<close>

lemma merge_entry_obj:
  "merge_entry (JObj kvs) cfg k =
     Inr (case map_of kvs k of None \<Rightarrow> cfg | Some v \<Rightarrow> AList.update k (merged_value k v) cfg)"
proof (cases "map_of kvs k")
  case None
  then have "k \<notin> set (map fst kvs)" by (simp add: map_of_eq_None_iff)
  with None show ?thesis by (simp add: merge_entry_def)
next
  case (Some v)
  then have "k \<in> set (map fst kvs)" by (metis map_of_eq_None_iff option.distinct(1) set_map)
  with Some show ?thesis by (simp add: merge_entry_def)
qed

lemma merge_keys_obj:
  "\<exists>cfg'. merge_keys (JObj kvs) cfg ks = Inr cfg' \<and>
     (\<forall>k. map_of cfg' k =
        (if k \<in> set ks \<and> map_of kvs k \<noteq> None then map_option (merged_value k) (map_of kvs k)
         else map_of cfg k))"
proof (induction ks arbitrary: cfg)
  case Nil
  then show ?case by simp
next
  case (Cons a ks)
  obtain c1 where c1: "merge_entry (JObj kvs) cfg a = Inr c1"
    and c1_def: "c1 = (case map_of kvs a of None \<Rightarrow> cfg | Some v \<Rightarrow> AList.update a (merged_value a v) cfg)"
    by (simp add: merge_entry_obj)
  from Cons.IH [of c1] obtain c2 where c2: "merge_keys (JObj kvs) c1 ks = Inr c2"
    and look: "\<forall>k. map_of c2 k =
        (if k \<in> set ks \<and> map_of kvs k \<noteq> None then map_option (merged_value k) (map_of kvs k)
         else map_of c1 k)" by blast
  have "merge_keys (JObj kvs) cfg (a # ks) = Inr c2" using c1 c2 by simp
  moreover have "\<forall>k. map_of c2 k =
        (if k \<in> set (a # ks) \<and> map_of kvs k \<noteq> None then map_option (merged_value k) (map_of kvs k)
         else map_of cfg k)"
    using look by (auto simp: c1_def update_conv' split: option.splits)
  ultimately show ?case by blast
qed

lemma load_config_obj:
  "map_of (load_config (Doc (JObj kvs))) k =
     (case map_of DEFAULT_CONFIG k of
        None \<Rightarrow> None
      | Some dv \<Rightarrow> (case map_of kvs k of None \<Rightarrow> Some dv | Some v \<Rightarrow> Some (merged_value k v)))"
proof -
  obtain cfg' where 1: "merge_keys (JObj kvs) DEFAULT_CONFIG (map fst DEFAULT_CONFIG) = Inr cfg'"
    and 2: "\<forall>k. map_of cfg' k =
        (if k \<in> set (map fst DEFAULT_CONFIG) \<and> map_of kvs k \<noteq> None then map_option (merged_value k) (map_of kvs k)
         else map_of DEFAULT_CONFIG k)"
    using merge_keys_obj by blast
  have 3: "k \<in> set (map fst DEFAULT_CONFIG) \<longleftrightarrow> map_of DEFAULT_CONFIG k \<noteq> None"
    by (metis map_of_eq_None_iff set_map)
  show ?thesis
    unfolding load_config_def using 1 2 3
    by (auto split: option.splits)
qed

lemma merged_value_plain:
  "map_of DEFAULT_CONFIG k = Some dv \<Longrightarrow> \<not> (is_dict dv \<and> is_dict v) \<Longrightarrow> merged_value k v = v"
  by (cases dv; cases v) (simp_all add: merged_value_def)

lemma merged_value_dicts:
  "map_of DEFAULT_CONFIG k = Some (JObj d) \<Longrightarrow> merged_value k (JObj p) = JObj (AList.merge d p)"
  by (simp add: merged_value_def)

lemma map_of_merge_lookup:
  "map_of (AList.merge d p) n = (case map_of p n of Some x \<Rightarrow> Some x | None \<Rightarrow> map_of d n)"
  by (simp add: merge_conv' map_add_def)

lemma default_theme: "map_of DEFAULT_CONFIG (ascii ''theme'') = Some (JStr (ascii ''light''))"
  by (simp add: DEFAULT_CONFIG_def ascii_def)

text \<open>
  Claim C8, as amended. Loading a persisted document (a dict) that lacks the \<open>theme\<close> key
  gives \<open>theme\<close> its built-in default \<open>light\<close>. For every key of the built-in defaults
  that the document holds, the loaded value is the persisted one, unless the default and
  the persisted value are both dicts: then the two are merged key by key, persisted keys
  winning and missing keys taking the default. A key of the defaults that the document
  lacks keeps its default, and a persisted top-level key outside the defaults is dropped.
\<close>

theorem load_config_merge:
  assumes "map_of doc (ascii ''theme'') = None"
  shows "map_of (load_config (Doc (JObj doc))) (ascii ''theme'') = Some (JStr (ascii ''light''))
    \<and> (\<forall>k dv v. map_of DEFAULT_CONFIG k = Some dv \<and> map_of doc k = Some v \<and> \<not> (is_dict dv \<and> is_dict v)
          \<longrightarrow> map_of (load_config (Doc (JObj doc))) k = Some v)
    \<and> (\<forall>k d p. map_of DEFAULT_CONFIG k = Some (JObj d) \<and> map_of doc k = Some (JObj p)
          \<longrightarrow> (\<exists>m. map_of (load_config (Doc (JObj doc))) k = Some (JObj m)
                 \<and> (\<forall>n. map_of m n = (case map_of p n of Some x \<Rightarrow> Some x | None \<Rightarrow> map_of d n))))
    \<and> (\<forall>k dv. map_of DEFAULT_CONFIG k = Some dv \<and> map_of doc k = None
          \<longrightarrow> map_of (load_config (Doc (JObj doc))) k = Some dv)
    \<and> (\<forall>k. map_of DEFAULT_CONFIG k = None \<longrightarrow> map_of (load_config (Doc (JObj doc))) k = None)"
proof (intro conjI allI impI)
  show "map_of (load_config (Doc (JObj doc))) (ascii ''theme'') = Some (JStr (ascii ''light''))"
    using assms by (simp add: load_config_obj default_theme)
next
  fix k dv v
  assume "map_of DEFAULT_CONFIG k = Some dv \<and> map_of doc k = Some v \<and> \<not> (is_dict dv \<and> is_dict v)"
  then show "map_of (load_config (Doc (JObj doc))) k = Some v"
    by (simp add: load_config_obj merged_value_plain)
next
  fix k d p
  assume a: "map_of DEFAULT_CONFIG k = Some (JObj d) \<and> map_of doc k = Some (JObj p)"
  then have "map_of (load_config (Doc (JObj doc))) k = Some (JObj (AList.merge d p))"
    by (simp add: load_config_obj merged_value_dicts)
  then show "\<exists>m. map_of (load_config (Doc (JObj doc))) k = Some (JObj m)
      \<and> (\<forall>n. map_of m n = (case map_of p n of Some x \<Rightarrow> Some x | None \<Rightarrow> map_of d n))"
    by (simp add: map_of_merge_lookup)
next
  fix k dv
  assume "map_of DEFAULT_CONFIG k = Some dv \<and> map_of doc k = None"
  then show "map_of (load_config (Doc (JObj doc))) k = Some dv"
    by (simp add: load_config_obj)
next
  fix k
  assume "map_of DEFAULT_CONFIG k = None"
  then show "map_of (load_config (Doc (JObj doc))) k = None"
    by (simp add: load_config_obj)
qed

text \<open>The theorem at a document holding \<open>api_key\<close> and a partial \<open>user\<close> dict.\<close>

theorem load_config_merge_witness:
  "map_of partial_doc (ascii ''theme'') = None
   \<and> map_of (load_config (Doc (JObj partial_doc))) (ascii ''theme'') = Some (JStr (ascii ''light''))
   \<and> map_of (load_config (Doc (JObj partial_doc))) (ascii ''api_key'') = Some (JStr (ascii ''sk-1''))
   \<and> map_of (load_config (Doc (JObj partial_doc))) (ascii ''model'') = Some (JStr (ascii ''deepseek-chat''))
   \<and> map_of (load_config (Doc (JObj partial_doc))) (ascii ''font_size'') = None
   \<and> (\<exists>m. map_of (load_config (Doc (JObj partial_doc))) (ascii ''user'') = Some (JObj m)
          \<and> map_of m (ascii ''username'') = Some (JStr (ascii ''bob''))
          \<and> map_of m (ascii ''login_type'') = Some (JStr (ascii ''manual'')))"
proof -
  have h: "map_of partial_doc (ascii ''theme'') = None"
    by (simp add: partial_doc_def ascii_def)
  note t = load_config_merge [OF h]
  have 1: "map_of (load_config (Doc (JObj partial_doc))) (ascii ''theme'') = Some (JStr (ascii ''light''))"
    using t by blast
  have k2: "map_of DEFAULT_CONFIG (ascii ''api_key'') = Some (JStr []) \<and>
      map_of partial_doc (ascii ''api_key'') = Some (JStr (ascii ''sk-1'')) \<and>
      \<not> (is_dict (JStr []) \<and> is_dict (JStr (ascii ''sk-1'')))"
    by (simp add: partial_doc_def DEFAULT_CONFIG_def ascii_def)
  have 2: "map_of (load_config (Doc (JObj partial_doc))) (ascii ''api_key'') = Some (JStr (ascii ''sk-1''))"
    using t k2 by blast
  have k3: "map_of DEFAULT_CONFIG (ascii ''model'') = Some (JStr (ascii ''deepseek-chat'')) \<and>
      map_of partial_doc (ascii ''model'') = None"
    by (simp add: partial_doc_def DEFAULT_CONFIG_def ascii_def)
  have 3: "map_of (load_config (Doc (JObj partial_doc))) (ascii ''model'') = Some (JStr (ascii ''deepseek-chat''))"
    using t k3 by blast
  have k4: "map_of DEFAULT_CONFIG (ascii ''font_size'') = None"
    by (simp add: DEFAULT_CONFIG_def ascii_def)
  have 4: "map_of (load_config (Doc (JObj partial_doc))) (ascii ''font_size'') = None"
    using t k4 by blast
  have k5: "map_of DEFAULT_CONFIG (ascii ''user'') = Some (JObj
         [(ascii ''username'', JStr []),
          (ascii ''login_type'', JStr (ascii ''manual'')),
          (ascii ''last_login'', JStr [])]) \<and>
      map_of partial_doc (ascii ''user'') = Some (JObj [(ascii ''username'', JStr (ascii ''bob''))])"
    by (simp add: partial_doc_def DEFAULT_CONFIG_def ascii_def)
  from t k5 obtain m where m: "map_of (load_config (Doc (JObj partial_doc))) (ascii ''user'') = Some (JObj m)"
    and mm: "\<forall>n. map_of m n = (case map_of [(ascii ''username'', JStr (ascii ''bob''))] n of Some x \<Rightarrow> Some x
        | None \<Rightarrow> map_of [(ascii ''username'', JStr []),
          (ascii ''login_type'', JStr (ascii ''manual'')),
          (ascii ''last_login'', JStr [])] n)"
    by blast
  have 5: "map_of m (ascii ''username'') = Some (JStr (ascii ''bob''))"
    by (simp add: mm)
  have 6: "map_of m (ascii ''login_type'') = Some (JStr (ascii ''manual''))"
    by (simp add: mm ascii_def)
  show ?thesis using h 1 2 3 4 m 5 6 by blast
qed

text \<open>
  Claim C8 as stated fails: the persisted top-level value \<open>font_size = 12\<close> of a document
  without \<open>theme\<close> is not preserved; the loaded configuration has no such key and \<open>get\<close>
  answers \<open>None\<close>.
\<close>

theorem load_config_drops_unknown_key:
  "map_of unknown_key_doc (ascii ''theme'') = None
   \<and> map_of unknown_key_doc (ascii ''font_size'') = Some (JInt 12)
   \<and> map_of (load_config (Doc (JObj unknown_key_doc))) (ascii ''font_size'') = None
   \<and> get (new_manager (Doc (JObj unknown_key_doc)) NoFault) (ascii ''font_size'') = Inr JNull"
  by code_simp

subsection \<open>The current session\<close>

lemma split_on_current_session: "split_on 46 (ascii ''current_session'') = [ascii ''current_session'']"
  by (simp add: ascii_def)

lemma default_current_session: "map_of DEFAULT_CONFIG (ascii ''current_session'') = Some (JList [])"
  by (simp add: DEFAULT_CONFIG_def ascii_def)

lemma get_top_level:
  assumes "split_on 46 key = [key]" and "map_of (config cm) key = Some v"
  shows "get cm key = Inr v"
proof -
  from assms(2) have "key \<in> set (map fst (config cm))"
    by (metis map_of_eq_None_iff option.distinct(1) set_map)
  with assms show ?thesis by (simp add: get_def)
qed

text \<open>
  Claim C9. For every conversation \<open>C\<close>, \<open>save_current_session\<close> with a write that succeeds,
  followed by a new \<open>ConfigManager\<close> loading the file, gives \<open>get("current_session")\<close>
  equal to \<open>C\<close>.
\<close>

theorem save_session_round_trip:
  "fault cm = NoFault \<Longrightarrow>
   get (new_manager (config_file (save_current_session cm (JList C))) w) (ascii ''current_session'')
     = Inr (JList C)"
proof -
  assume ok: "fault cm = NoFault"
  let ?cfg = "AList.update (ascii ''current_session'') (JList C) (config cm)"
  have f: "config_file (save_current_session cm (JList C)) = Doc (JObj ?cfg)"
    using ok by (simp add: save_current_session_def save_config_def)
  have "map_of ?cfg (ascii ''current_session'') = Some (JList C)"
    by (simp add: update_conv')
  then have "map_of (load_config (Doc (JObj ?cfg))) (ascii ''current_session'') = Some (JList C)"
    by (simp add: load_config_obj default_current_session merged_value_def)
  then have "map_of (config (new_manager (Doc (JObj ?cfg)) w)) (ascii ''current_session'') = Some (JList C)"
    by (simp add: new_manager_def)
  then show ?thesis
    unfolding f by (rule get_top_level [OF split_on_current_session])
qed

text \<open>The round trip of a one-message conversation through a store that had no file.\<close>

theorem save_session_round_trip_witness:
  "fault (new_manager Missing NoFault) = NoFault \<and>
   get (new_manager (config_file (save_current_session (new_manager Missing NoFault)
          (JList [json_of_message hi_message]))) NoFault) (ascii ''current_session'')
     = Inr (JList [JObj [(ascii ''role'', JStr (ascii ''user'')), (ascii ''content'', JStr (ascii ''hi''))]])"
proof -
  have h: "fault (new_manager Missing NoFault) = NoFault" by (simp add: new_manager_def)
  show ?thesis
    using h save_session_round_trip [OF h, of "[json_of_message hi_message]" NoFault]
    by (simp add: json_of_message_def hi_message_def)
qed

lemma history_of_update:
  "history_of (save_config (cm\<lparr>config := AList.update (ascii ''history'') (JList h) (config cm)\<rparr>)) = Some h"
  by (simp add: history_of_def save_config_def update_conv' split: write_fault.splits)

lemma add_to_history_nonempty:
  assumes "session \<noteq> []" and "history_of cm = Some h"
  shows "\<exists>cm'. add_to_history cm session now = Inr cm' \<and>
           history_of cm' = Some (take 50 (history_entry session now # h))"
proof -
  from assms(2) have m: "map_of (config cm) (ascii ''history'') = Some (JList h)"
    by (auto simp: history_of_def split: option.splits json.splits)
  let ?h1 = "history_entry session now # h"
  have t: "(if length ?h1 > 50 then take 50 ?h1 else ?h1) = take 50 ?h1" by simp
  show ?thesis
    using assms(1) m t
    by (simp add: add_to_history_def Let_def history_of_update del: take_Suc_Cons take_all_iff)
qed

lemma take_append_take: "take n (xs @ take n ys) = take n (xs @ ys)"
  by (simp add: min_def)

lemma add_all_history:
  assumes "ss \<noteq> []" and "\<forall>p \<in> set ss. fst p \<noteq> []" and "history_of cm = Some h"
  shows "\<exists>cm'. add_all cm ss = Inr cm' \<and>
           history_of cm' = Some (take 50 (rev (map (\<lambda>(s, t). history_entry s t) ss) @ h))"
  using assms
proof (induction ss arbitrary: cm h)
  case Nil
  then show ?case by simp
next
  case (Cons p ss)
  obtain s t where p: "p = (s, t)" by (cases p)
  with Cons.prems have ne: "s \<noteq> []" by simp
  from add_to_history_nonempty [OF ne Cons.prems(3)] obtain cm1
    where 1: "add_to_history cm s t = Inr cm1"
      and 2: "history_of cm1 = Some (take 50 (history_entry s t # h))" by blast
  show ?case
  proof (cases "ss = []")
    case True
    then show ?thesis using p 1 2 by simp
  next
    case False
    from Cons.prems(2) have rest: "\<forall>p \<in> set ss. fst p \<noteq> []" by simp
    from Cons.IH [OF False rest 2] obtain cm2
      where 3: "add_all cm1 ss = Inr cm2"
        and 4: "history_of cm2 = Some (take 50 (rev (map (\<lambda>(s, t). history_entry s t) ss) @ take 50 (history_entry s t # h)))"
      by blast
    have "add_all cm (p # ss) = Inr cm2" using p 1 3 by simp
    moreover have "history_of cm2 = Some (take 50 (rev (map (\<lambda>(s, t). history_entry s t) (p # ss)) @ h))"
      using 4 p by (simp only: take_append_take) simp
    ultimately show ?thesis by blast
  qed
qed

subsection \<open>The history\<close>

lemma add_to_history_empty: "add_to_history cm [] now = Inr cm"
  by (simp add: add_to_history_def)

text \<open>
  Claim C3, as amended. From any store whose history is a list: a non-empty conversation
  appended and then 50 more non-empty ones leave exactly the entries of the last 50, newest
  first (the first of the 51 and everything older are dropped); after any call with a
  non-empty conversation the history is the new entry before the old ones, cut to 50, so
  at most 50 long; a call with an empty conversation changes nothing; and a history of at
  most 50 entries stays so under every call.
\<close>

theorem add_to_history_cap:
  assumes "history_of cm = Some h"
  shows "(length ss = 50 \<and> c0 \<noteq> [] \<and> (\<forall>p \<in> set ss. fst p \<noteq> []) \<longrightarrow>
            (\<exists>cm' h'. add_all cm ((c0, t0) # ss) = Inr cm' \<and> history_of cm' = Some h' \<and>
                h' = rev (map (\<lambda>(s, t). history_entry s t) ss) \<and> length h' = 50))
       \<and> (session \<noteq> [] \<longrightarrow>
            (\<exists>cm' h'. add_to_history cm session now = Inr cm' \<and> history_of cm' = Some h' \<and>
                h' = take 50 (history_entry session now # h) \<and> length h' \<le> 50))
       \<and> add_to_history cm [] now = Inr cm
       \<and> (length h \<le> 50 \<longrightarrow>
            (\<exists>cm' h'. add_to_history cm session now = Inr cm' \<and> history_of cm' = Some h' \<and>
                length h' \<le> 50))"
proof (intro conjI impI)
  assume a: "length ss = 50 \<and> c0 \<noteq> [] \<and> (\<forall>p \<in> set ss. fst p \<noteq> [])"
  then have ne: "\<forall>p \<in> set ((c0, t0) # ss). fst p \<noteq> []" by simp
  from add_all_history [OF _ ne assms] obtain cm'
    where 1: "add_all cm ((c0, t0) # ss) = Inr cm'"
      and 2: "history_of cm' =
                Some (take 50 (rev (map (\<lambda>(s, t). history_entry s t) ((c0, t0) # ss)) @ h))"
    by blast
  have "take 50 (rev (map (\<lambda>(s, t). history_entry s t) ((c0, t0) # ss)) @ h)
          = rev (map (\<lambda>(s, t). history_entry s t) ss)"
    using a by simp
  with 1 2 a show "\<exists>cm' h'. add_all cm ((c0, t0) # ss) = Inr cm' \<and> history_of cm' = Some h' \<and>
                h' = rev (map (\<lambda>(s, t). history_entry s t) ss) \<and> length h' = 50"
    by simp
next
  assume "session \<noteq> []"
  from add_to_history_nonempty [OF this assms, of now]
  show "\<exists>cm' h'. add_to_history cm session now = Inr cm' \<and> history_of cm' = Some h' \<and>
                h' = take 50 (history_entry session now # h) \<and> length h' \<le> 50"
    by auto
next
  show "add_to_history cm [] now = Inr cm" by (rule add_to_history_empty)
next
  assume le: "length h \<le> 50"
  show "\<exists>cm' h'. add_to_history cm session now = Inr cm' \<and> history_of cm' = Some h' \<and>
                length h' \<le> 50"
  proof (cases "session = []")
    case True
    then show ?thesis using assms le by (simp add: add_to_history_empty)
  next
    case False
    from add_to_history_nonempty [OF this assms, of now] show ?thesis by auto
  qed
qed

lemma history_of_fresh: "history_of fresh_store = Some []"
  by (simp add: fresh_store_def new_manager_def load_config_def history_of_def DEFAULT_CONFIG_def ascii_def)

text \<open>The theorem on a store without a file: 51 appends, one append, and the empty append.\<close>

theorem add_to_history_cap_witness:
  "history_of fresh_store = Some []
   \<and> (\<exists>cm'. add_all fresh_store
              (([bare_message], ascii ''t0'') # replicate 50 ([hi_message], ascii ''t1'')) = Inr cm'
          \<and> history_of cm' = Some (replicate 50 (history_entry [hi_message] (ascii ''t1''))))
   \<and> (\<exists>cm'. add_to_history fresh_store [hi_message] (ascii ''t1'') = Inr cm'
          \<and> history_of cm' = Some [history_entry [hi_message] (ascii ''t1'')])
   \<and> add_to_history fresh_store [] (ascii ''t1'') = Inr fresh_store"
proof -
  note t = add_to_history_cap [OF history_of_fresh,
      where ss = "replicate 50 ([hi_message], ascii ''t1'')" and ?c0.0 = "[bare_message]"
        and session = "[hi_message]" and ?t0.0 = "ascii ''t0''" and now = "ascii ''t1''"]
  have p: "length (replicate 50 ([hi_message], ascii ''t1'')) = 50 \<and> [bare_message] \<noteq> [] \<and>
      (\<forall>p \<in> set (replicate 50 ([hi_message], ascii ''t1'')). fst p \<noteq> [])"
    by simp
  have r: "rev (map (\<lambda>(s, t). history_entry s t) (replicate 50 ([hi_message], ascii ''t1'')))
      = replicate 50 (history_entry [hi_message] (ascii ''t1''))"
    by simp
  have 1: "\<exists>cm'. add_all fresh_store
              (([bare_message], ascii ''t0'') # replicate 50 ([hi_message], ascii ''t1'')) = Inr cm'
          \<and> history_of cm' = Some (replicate 50 (history_entry [hi_message] (ascii ''t1'')))"
    using t p r by metis
  have 2: "\<exists>cm'. add_to_history fresh_store [hi_message] (ascii ''t1'') = Inr cm'
          \<and> history_of cm' = Some [history_entry [hi_message] (ascii ''t1'')]"
    using t by auto
  have 3: "add_to_history fresh_store [] (ascii ''t1'') = Inr fresh_store"
    using t by blast
  show ?thesis using history_of_fresh 1 2 3 by blast
qed

text \<open>
  Claim C3 as stated fails: a store loaded from a file with 51 history entries still has
  51 after \<open>add_to_history\<close> is called with an empty conversation.
\<close>

theorem add_to_history_empty_keeps_oversize:
  "map_option length (history_of oversized_store) = Some 51
   \<and> (case add_to_history oversized_store [] (ascii ''2025-07-18T10:00:00'') of
        Inl e \<Rightarrow> None
      | Inr cm' \<Rightarrow> map_option length (history_of cm')) = Some 51"
  by code_simp

text \<open>
  Claim C4. \<open>add_to_history\<close> with a non-empty conversation stores, as the newest entry, one
  whose title is derived from the first message: its content unchanged when that is at
  most 30 code points long, the first 30 code points followed by \<open>...\<close> when it is longer,
  and the default title when the message has no \<open>content\<close> key.
\<close>

theorem history_title:
  assumes "history_of cm = Some h"
  shows "\<exists>cm' rest. add_to_history cm (m # ms) now = Inr cm'
           \<and> history_of cm' =
               Some (JObj [(ascii ''title'', JStr (derive_title (m # ms))),
                           (ascii ''timestamp'', JStr now),
                           (ascii ''messages'', JList (map json_of_message (m # ms)))] # rest)
           \<and> (\<forall>c. map_of m (ascii ''content'') = Some c \<and> length c \<le> 30
                  \<longrightarrow> derive_title (m # ms) = c)
           \<and> (\<forall>c. map_of m (ascii ''content'') = Some c \<and> length c > 30
                  \<longrightarrow> derive_title (m # ms) = take 30 c @ ascii ''...'')
           \<and> (map_of m (ascii ''content'') = None \<longrightarrow> derive_title (m # ms) = default_title)"
proof -
  from add_to_history_nonempty [OF _ assms, of "m # ms" now] obtain cm'
    where 1: "add_to_history cm (m # ms) now = Inr cm'"
      and 2: "history_of cm' = Some (take 50 (history_entry (m # ms) now # h))" by auto
  have "take 50 (history_entry (m # ms) now # h) = history_entry (m # ms) now # take 49 h"
    by (simp add: take_Cons')
  with 2 have 3: "history_of cm' =
               Some (JObj [(ascii ''title'', JStr (derive_title (m # ms))),
                           (ascii ''timestamp'', JStr now),
                           (ascii ''messages'', JList (map json_of_message (m # ms)))] # take 49 h)"
    by (simp add: history_entry_def)
  have 4: "\<forall>c. map_of m (ascii ''content'') = Some c \<and> length c \<le> 30 \<longrightarrow> derive_title (m # ms) = c"
    by (simp add: derive_title_def)
  have 5: "\<forall>c. map_of m (ascii ''content'') = Some c \<and> length c > 30
                  \<longrightarrow> derive_title (m # ms) = take 30 c @ ascii ''...''"
    by (simp add: derive_title_def)
  have 6: "map_of m (ascii ''content'') = None \<longrightarrow> derive_title (m # ms) = default_title"
    by (simp add: derive_title_def)
  have "add_to_history cm (m # ms) now = Inr cm'
           \<and> history_of cm' =
               Some (JObj [(ascii ''title'', JStr (derive_title (m # ms))),
                           (ascii ''timestamp'', JStr now),
                           (ascii ''messages'', JList (map json_of_message (m # ms)))] # take 49 h)
           \<and> (\<forall>c. map_of m (ascii ''content'') = Some c \<and> length c \<le> 30
                  \<longrightarrow> derive_title (m # ms) = c)
           \<and> (\<forall>c. map_of m (ascii ''content'') = Some c \<and> length c > 30
                  \<longrightarrow> derive_title (m # ms) = take 30 c @ ascii ''...'')
           \<and> (map_of m (ascii ''content'') = None \<longrightarrow> derive_title (m # ms) = default_title)"
    using 1 3 4 5 6 by (intro conjI)
  then show ?thesis by (intro exI)
qed

text \<open>The theorem on a short content, a content of 31 code points and a message without content.\<close>

theorem history_title_witness:
  "history_of fresh_store = Some []
   \<and> map_of hi_message (ascii ''content'') = Some (ascii ''hi'') \<and> length (ascii ''hi'') \<le> 30
   \<and> derive_title [hi_message] = ascii ''hi''
   \<and> map_of long_message (ascii ''content'') = Some (replicate 31 97) \<and> length (replicate 31 (97::nat)) > 30
   \<and> derive_title [long_message] = replicate 30 97 @ [46, 46, 46]
   \<and> map_of bare_message (ascii ''content'') = None
   \<and> derive_title [bare_message] = [26080, 26631, 39064, 23545, 35805]
   \<and> (\<exists>cm' rest. add_to_history fresh_store [long_message] (ascii ''t1'') = Inr cm'
          \<and> history_of cm' = Some (JObj [(ascii ''title'', JStr (replicate 30 97 @ [46, 46, 46])),
                           (ascii ''timestamp'', JStr (ascii ''t1'')),
                           (ascii ''messages'', JList [json_of_message long_message])] # rest))"
proof -
  have a: "map_of hi_message (ascii ''content'') = Some (ascii ''hi'') \<and> length (ascii ''hi'') \<le> 30"
    by (simp add: hi_message_def ascii_def)
  have b: "map_of long_message (ascii ''content'') = Some (replicate 31 97) \<and> length (replicate 31 (97::nat)) > 30"
    by (simp add: long_message_def ascii_def)
  have c: "map_of bare_message (ascii ''content'') = None"
    by (simp add: bare_message_def ascii_def)
  have 1: "derive_title [hi_message] = ascii ''hi''"
    using history_title [OF history_of_fresh, where m = hi_message and ms = "[]"] a by blast
  have "derive_title [long_message] = take 30 (replicate 31 97) @ ascii ''...''"
    using history_title [OF history_of_fresh, where m = long_message and ms = "[]"] b by blast
  then have 2: "derive_title [long_message] = replicate 30 97 @ [46, 46, 46]"
    by (simp add: ascii_def)
  have "derive_title [bare_message] = default_title"
    using history_title [OF history_of_fresh, where m = bare_message and ms = "[]"] c by blast
  then have 3: "derive_title [bare_message] = [26080, 26631, 39064, 23545, 35805]"
    by (simp add: default_title_def)
  have 4: "\<exists>cm' rest. add_to_history fresh_store [long_message] (ascii ''t1'') = Inr cm'
          \<and> history_of cm' = Some (JObj [(ascii ''title'', JStr (replicate 30 97 @ [46, 46, 46])),
                           (ascii ''timestamp'', JStr (ascii ''t1'')),
                           (ascii ''messages'', JList [json_of_message long_message])] # rest)"
    using history_title [OF history_of_fresh, where m = long_message and ms = "[]" and now = "ascii ''t1''"]
    unfolding 2 by auto
  show ?thesis using history_of_fresh a b c 1 2 3 4 by blast
qed

subsection \<open>Decoding the stream\<close>

lemma payload_text_ill_formed: "\<not> well_formed loads p \<Longrightarrow> payload_text loads p = []"
  by (auto simp: well_formed_def payload_text_def split: option.splits)

lemma content_deltas_filter:
  "content_deltas loads ls =
     filter (\<lambda>t. t \<noteq> []) (map (payload_text loads) (before_done (payloads ls)))"
proof -
  have "(\<lambda>p. well_formed loads p \<and> payload_text loads p \<noteq> []) = ((\<lambda>t. t \<noteq> []) \<circ> payload_text loads)"
    using payload_text_ill_formed by (auto simp: fun_eq_iff)
  then show ?thesis by (simp add: content_deltas_def filter_map)
qed

lemma key_in_dict: "map_of kvs k = Some v \<Longrightarrow> k \<in> set (map fst kvs)"
  by (metis map_of_eq_None_iff option.distinct(1) set_map)

lemma key_not_in_dict: "map_of kvs k = None \<Longrightarrow> k \<notin> set (map fst kvs)"
  by (simp add: map_of_eq_None_iff)

lemma content_text_yield:
  assumes "content_text (map_of d (ascii ''content'')) = Some t"
  shows "\<exists>c. dict_get (JObj d) (ascii ''content'') (JStr []) = Inr c \<and>
           (if truthy c then c = JStr t \<and> t \<noteq> [] else t = [])"
  using assms
  by (cases "map_of d (ascii ''content'')"; simp; case_tac a; simp)

lemma delta_text_yield:
  assumes "delta_text (map_of ch (ascii ''delta'')) = Some t"
  shows "\<exists>c. (case dict_get (JObj ch) (ascii ''delta'') (JObj []) of
                 Inl e \<Rightarrow> Inl e
               | Inr delta \<Rightarrow>
                   (case dict_get delta (ascii ''content'') (JStr []) of
                      Inl e \<Rightarrow> Inl e
                    | Inr content \<Rightarrow> Inr (Some content))) = Inr (Some c) \<and>
           (if truthy c then c = JStr t \<and> t \<noteq> [] else t = [])"
proof (cases "map_of ch (ascii ''delta'')")
  case None
  with assms show ?thesis by simp
next
  case (Some dv)
  with assms obtain d where d: "dv = JObj d" by (cases dv) simp_all
  with Some assms have "content_text (map_of d (ascii ''content'')) = Some t" by simp
  from content_text_yield [OF this] obtain c
    where "dict_get (JObj d) (ascii ''content'') (JStr []) = Inr c"
      and "if truthy c then c = JStr t \<and> t \<noteq> [] else t = []" by blast
  with Some d show ?thesis by simp
qed

lemma delta_content_well_formed:
  assumes "record_text j = Some t"
  shows "\<exists>x. delta_content j = Inr x \<and>
           (case x of None \<Rightarrow> t = []
            | Some c \<Rightarrow> (if truthy c then c = JStr t \<and> t \<noteq> [] else t = []))"
proof -
  from assms obtain kvs where j: "j = JObj kvs" by (cases j) simp_all
  show ?thesis
  proof (cases "map_of kvs (ascii ''choices'')")
    case None
    with assms j have "t = []" by simp
    moreover have "delta_content j = Inr None"
      using key_not_in_dict [OF None] by (simp add: delta_content_def j)
    ultimately show ?thesis by simp
  next
    case (Some cv)
    note inn = key_in_dict [OF Some]
    from assms j Some obtain xs where cv: "cv = JList xs" by (cases cv) simp_all
    show ?thesis
    proof (cases xs)
      case Nil
      with assms j Some cv have "t = []" by simp
      moreover have "delta_content j = Inr None"
        using inn Some cv Nil by (simp add: delta_content_def j)
      ultimately show ?thesis by simp
    next
      case (Cons x others)
      with assms j Some cv obtain ch where x: "x = JObj ch" by (cases x) simp_all
      with assms j Some cv Cons have "delta_text (map_of ch (ascii ''delta'')) = Some t" by simp
      from delta_text_yield [OF this] obtain c where
        1: "(case dict_get (JObj ch) (ascii ''delta'') (JObj []) of
                 Inl e \<Rightarrow> Inl e
               | Inr delta \<Rightarrow>
                   (case dict_get delta (ascii ''content'') (JStr []) of
                      Inl e \<Rightarrow> Inl e
                    | Inr content \<Rightarrow> Inr (Some content))) = Inr (Some c)"
        and 2: "if truthy c then c = JStr t \<and> t \<noteq> [] else t = []" by blast
      have "delta_content j = Inr (Some c)"
        using inn Some cv Cons x 1 by (simp add: delta_content_def j)
      with 2 show ?thesis by simp
    qed
  qed
qed

lemma process_stream_record:
  assumes "s \<noteq> []" and "startswith s (ascii ''data:'')" and "data_str s \<noteq> ascii ''[DONE]''"
    and "undecodable loads (data_str s) \<or> well_formed loads (data_str s)"
  shows "process_stream loads (Line s # rest) e =
           (if payload_text loads (data_str s) = [] then process_stream loads rest e
            else (JStr (payload_text loads (data_str s)) # fst (process_stream loads rest e),
                  snd (process_stream loads rest e)))"
proof (cases "loads (data_str s)")
  case None
  with assms(1-3) show ?thesis by (simp add: payload_text_def)
next
  case (Some j)
  with assms(4) obtain t where t: "record_text j = Some t"
    by (auto simp: undecodable_def well_formed_def)
  from delta_content_well_formed [OF t] obtain x where
    x: "delta_content j = Inr x" and
    y: "case x of None \<Rightarrow> t = [] | Some c \<Rightarrow> (if truthy c then c = JStr t \<and> t \<noteq> [] else t = [])"
    by blast
  have pt: "payload_text loads (data_str s) = t" using Some t by (simp add: payload_text_def)
  show ?thesis
  proof (cases x)
    case None
    with x y assms(1-3) Some pt show ?thesis by simp
  next
    case (Some c)
    with x y assms(1-3) \<open>loads (data_str s) = Some j\<close> pt show ?thesis
      by (cases "truthy c") (simp_all add: case_prod_beta)
  qed
qed

text \<open>With the space after the prefix, the text the code decodes is the record's payload.\<close>

lemma replace_first_prefix:
  "replace_first old new (old @ rest) = new @ rest"
proof (cases "old @ rest")
  case Nil
  then show ?thesis by simp
next
  case (Cons a list)
  have "prefix old (a # list)" by (metis Cons prefixI)
  moreover have "drop (length old) (a # list) = rest" by (metis Cons append_eq_conv_conj)
  ultimately show ?thesis by (simp add: Cons)
qed

lemma data_str_spaced:
  assumes "startswith s (ascii ''data: '')"
  shows "data_str s = record_payload s" and "s \<noteq> []" and "startswith s (ascii ''data:'')"
proof -
  from assms obtain rest where s: "s = ascii ''data: '' @ rest"
    by (auto simp: startswith_def prefix_def)
  have "replace_first (ascii ''data: '') [] s = rest"
    unfolding s by (simp only: replace_first_prefix append_Nil)
  moreover have "drop (length (ascii ''data:'')) s = 32 # rest"
    by (simp add: s ascii_def)
  ultimately show "data_str s = record_payload s"
    by (simp add: data_str_def record_payload_def strip_def is_space_def)
  show "s \<noteq> []" by (simp add: s ascii_def)
  show "startswith s (ascii ''data:'')" by (simp add: s startswith_def ascii_def)
qed

lemma process_stream_decodes:
  assumes "\<forall>l \<in> set ls. data_line l"
    and "\<forall>p \<in> set (before_done (payloads ls)). undecodable loads p \<or> well_formed loads p"
  shows "process_stream loads ls e =
           (map JStr (content_deltas loads ls),
            if ascii ''[DONE]'' \<in> set (payloads ls) \<or> e = EndOfStream then None
            else Some RequestException)"
  using assms
proof (induction ls)
  case Nil
  then show ?case by (cases e) (simp_all add: content_deltas_filter before_done_def)
next
  case (Cons l ls)
  from Cons.prems(1) obtain s where l: "l = Line s"
    and sp: "s = [] \<or> startswith s (ascii ''data: '')" by (cases l) auto
  from Cons.prems(1) have no_bad: "\<forall>l \<in> set ls. data_line l" by simp
  have empty: "\<not> startswith [] (ascii ''data:'')" by (simp add: startswith_def ascii_def)
  show ?case
  proof (cases "s \<noteq> [] \<and> startswith s (ascii ''data:'')")
    case False
    with empty have nsw: "\<not> startswith s (ascii ''data:'')" by auto
    then have same: "payloads (l # ls) = payloads ls" by (simp add: l)
    with Cons.prems(2) have "\<forall>p \<in> set (before_done (payloads ls)). undecodable loads p \<or> well_formed loads p"
      by simp
    from Cons.IH [OF no_bad this] nsw same show ?thesis
      by (simp add: l content_deltas_filter)
  next
    case True
    with sp have "startswith s (ascii ''data: '')" by simp
    from data_str_spaced(1) [OF this] have eq: "record_payload s = data_str s" by simp
    with True have pl: "payloads (l # ls) = data_str s # payloads ls" by (simp add: l)
    show ?thesis
    proof (cases "data_str s = ascii ''[DONE]''")
      case d: True
      with True show ?thesis by (simp add: l eq content_deltas_filter before_done_def)
    next
      case d: False
      then have bd: "before_done (payloads (l # ls)) = data_str s # before_done (payloads ls)"
        by (simp add: pl before_done_def)
      with Cons.prems(2) have here: "undecodable loads (data_str s) \<or> well_formed loads (data_str s)"
        and later: "\<forall>p \<in> set (before_done (payloads ls)). undecodable loads p \<or> well_formed loads p"
        by simp_all
      note ih = Cons.IH [OF no_bad later]
      from True have ne: "s \<noteq> []" and sw: "startswith s (ascii ''data:'')" by simp_all
      have cd: "content_deltas loads (l # ls) =
          (if payload_text loads (data_str s) = [] then content_deltas loads ls
           else payload_text loads (data_str s) # content_deltas loads ls)"
        by (simp add: content_deltas_filter bd)
      have dn: "(ascii ''[DONE]'' \<in> set (payloads (l # ls))) = (ascii ''[DONE]'' \<in> set (payloads ls))"
        using d by (auto simp: pl)
      show ?thesis
        unfolding l [symmetric] dn cd
        unfolding l process_stream_record [OF ne sw d here] ih
        by simp
    qed
  qed
qed

text \<open>
  Claim C6, as amended. For a streamed response whose chunks are all UTF-8 text, each empty
  or a record prefixed \<open>data: \<close>, and whose records before the \<open>[DONE]\<close> sentinel
  each either fail to decode (\<open>json.loads\<close> raises) or are well formed, \<open>process_stream\<close> yields, in order, exactly the non-empty
  content deltas of the well-formed records before the sentinel. Every fragment is
  non-empty, so the sentinel adds none; undecodable records are skipped; and the iteration
  ends without an exception, unless there is no sentinel and the transport itself fails at
  the end of the lines.
\<close>

theorem process_stream_fragments:
  assumes "\<forall>l \<in> set ls. data_line l"
    and "\<forall>p \<in> set (before_done (payloads ls)). undecodable loads p \<or> well_formed loads p"
  shows "fst (process_stream loads ls e) = map JStr (content_deltas loads ls)
       \<and> snd (process_stream loads ls e) =
           (if ascii ''[DONE]'' \<in> set (payloads ls) \<or> e = EndOfStream then None
            else Some RequestException)
       \<and> (\<forall>t \<in> set (content_deltas loads ls). t \<noteq> [])"
proof -
  have "\<forall>t \<in> set (content_deltas loads ls). t \<noteq> []"
    by (simp add: content_deltas_filter)
  then show ?thesis
    by (simp add: process_stream_decodes [OF assms])
qed

text \<open>The payloads of \<open>demo_lines\<close> and what the stand-in decoder makes of them.\<close>

lemma demo_payloads:
  "payloads demo_lines =
     [ascii ''{\"choices\":[{\"delta\":{\"content\":\"Hel\"}}]}'',
      ascii ''{\"choices\":[{\"delta\":'',
      ascii ''{\"choices\":[{\"delta\":{\"content\":\"\"}}]}'',
      ascii ''{\"choices\":[{\"delta\":{\"content\":\"lo\"}}]}'',
      ascii ''[DONE]'',
      ascii ''{\"choices\":[{\"delta\":{\"content\":\"late\"}}]}'']"
  by (simp add: demo_lines_def record_payload_def strip_def is_space_def startswith_def ascii_def)

lemma demo_before_done:
  "before_done (payloads demo_lines) =
     [ascii ''{\"choices\":[{\"delta\":{\"content\":\"Hel\"}}]}'',
      ascii ''{\"choices\":[{\"delta\":'',
      ascii ''{\"choices\":[{\"delta\":{\"content\":\"\"}}]}'',
      ascii ''{\"choices\":[{\"delta\":{\"content\":\"lo\"}}]}'']"
  unfolding demo_payloads by (simp add: before_done_def ascii_def)

lemma demo_loads_Hel:
  "demo_loads (ascii ''{\"choices\":[{\"delta\":{\"content\":\"Hel\"}}]}'') = Some (delta_record (ascii ''Hel''))"
  by (simp add: demo_loads_def ascii_def)

lemma demo_loads_broken: "demo_loads (ascii ''{\"choices\":[{\"delta\":'') = None"
  by (simp add: demo_loads_def ascii_def)

lemma demo_loads_empty:
  "demo_loads (ascii ''{\"choices\":[{\"delta\":{\"content\":\"\"}}]}'') = Some (delta_record [])"
  by (simp add: demo_loads_def ascii_def)

lemma demo_loads_lo:
  "demo_loads (ascii ''{\"choices\":[{\"delta\":{\"content\":\"lo\"}}]}'') = Some (delta_record (ascii ''lo''))"
  by (simp add: demo_loads_def ascii_def)

lemma record_text_delta_record: "record_text (delta_record t) = Some t"
  by (simp add: delta_record_def ascii_def)

lemmas demo_facts = demo_before_done demo_loads_Hel demo_loads_broken demo_loads_empty demo_loads_lo
  record_text_delta_record undecodable_def well_formed_def payload_text_def

text \<open>
  The theorem on \<open>demo_lines\<close>: an empty chunk, a truncated record and a record with an
  empty delta are passed over, and the record after \<open>[DONE]\<close> is not read.
\<close>

theorem process_stream_fragments_witness:
  "list_all data_line demo_lines
   \<and> list_all (\<lambda>p. undecodable demo_loads p \<or> well_formed demo_loads p) (before_done (payloads demo_lines))
   \<and> length (before_done (payloads demo_lines)) = 4
   \<and> process_stream demo_loads demo_lines EndOfStream = ([JStr (ascii ''Hel''), JStr (ascii ''lo'')], None)"
proof -
  have h1: "\<forall>l \<in> set demo_lines. data_line l"
    by (simp add: demo_lines_def startswith_def ascii_def)
  have h2: "\<forall>p \<in> set (before_done (payloads demo_lines)). undecodable demo_loads p \<or> well_formed demo_loads p"
    by (simp add: demo_facts)
  have n: "length (before_done (payloads demo_lines)) = 4"
    by (simp add: demo_facts)
  have d: "content_deltas demo_loads demo_lines = [ascii ''Hel'', ascii ''lo'']"
    by (simp add: content_deltas_def demo_facts) (simp add: ascii_def)
  from process_stream_fragments [OF h1 h2, of EndOfStream]
  have "process_stream demo_loads demo_lines EndOfStream = ([JStr (ascii ''Hel''), JStr (ascii ''lo'')], None)"
    unfolding d by (simp add: prod_eq_iff)
  with h1 h2 n show ?thesis by (simp add: list_all_iff)
qed

text \<open>
  Claim C6 as stated fails. A record whose payload decodes to something else than an
  object (here the number 5) makes \<open>"choices" in data\<close> raise \<open>TypeError\<close>, and a
  chunk that is not UTF-8 makes \<open>decode\<close> raise; neither exception is caught, so the
  iteration ends there and the well-formed record \<open>Hel\<close> that follows, before the
  sentinel, is never yielded.
\<close>

theorem process_stream_aborts_on_other_records:
  "content_deltas demo_loads
     [Line (ascii ''data: 5''),
      Line (ascii ''data: {\"choices\":[{\"delta\":{\"content\":\"Hel\"}}]}''),
      Line (ascii ''data: [DONE]'')] = [ascii ''Hel'']
   \<and> process_stream demo_loads
     [Line (ascii ''data: 5''),
      Line (ascii ''data: {\"choices\":[{\"delta\":{\"content\":\"Hel\"}}]}''),
      Line (ascii ''data: [DONE]'')] EndOfStream = ([], Some TypeError)
   \<and> process_stream demo_loads
     [BadUtf8,
      Line (ascii ''data: {\"choices\":[{\"delta\":{\"content\":\"Hel\"}}]}''),
      Line (ascii ''data: [DONE]'')] EndOfStream = ([], Some UnicodeDecodeError)"
  by (simp add: content_deltas_def before_done_def well_formed_def payload_text_def
      record_payload_def data_str_def strip_def is_space_def startswith_def demo_loads_def delta_content_def
      delta_record_def ascii_def)

text \<open>
  Left out of claim C6: records whose prefix \<open>data:\<close> has no space after it. Line 420
  tests for \<open>data:\<close> and line 421 removes \<open>data: \<close>, so such a record keeps the prefix
  in the text that is decoded: it does not decode and is skipped, and \<open>data:[DONE]\<close> is
  not taken for the sentinel. The wire format gives \<open>Hel\<close> here, the code \<open>late\<close>.
\<close>

lemma process_stream_prefix_without_space:
  "content_deltas demo_loads
     [Line (ascii ''data:{\"choices\":[{\"delta\":{\"content\":\"Hel\"}}]}''),
      Line (ascii ''data:[DONE]''),
      Line (ascii ''data: {\"choices\":[{\"delta\":{\"content\":\"late\"}}]}'')]
     = [ascii ''Hel'']
   \<and> process_stream demo_loads
     [Line (ascii ''data:{\"choices\":[{\"delta\":{\"content\":\"Hel\"}}]}''),
      Line (ascii ''data:[DONE]''),
      Line (ascii ''data: {\"choices\":[{\"delta\":{\"content\":\"late\"}}]}'')] EndOfStream
     = ([JStr (ascii ''late'')], None)"
  by (simp add: content_deltas_def before_done_def well_formed_def payload_text_def
      record_payload_def data_str_def strip_def is_space_def startswith_def demo_loads_def delta_content_def
      delta_record_def ascii_def)

text \<open>Every value \<open>process_stream\<close> yields is truthy (line 430), so no fragment is empty.\<close>

lemma process_stream_yields_truthy:
  "y \<in> set (fst (process_stream loads ls e)) \<Longrightarrow> truthy y"
proof (induction ls)
  case Nil
  then show ?case by (cases e) simp_all
next
  case (Cons l ls)
  show ?case
  proof (cases l)
    case BadUtf8
    with Cons.prems show ?thesis by simp
  next
    case (Line s)
    with Cons.prems have "y \<in> set (fst (process_stream loads ls e)) \<or> truthy y"
      by (auto simp: case_prod_beta split: if_splits option.splits sum.splits)
    with Cons.IH show ?thesis by blast
  qed
qed

lemma fragments_not_empty:
  assumes "process_stream loads ls e = (map JStr fs, x)" and "fs \<noteq> []"
  shows "concat fs \<noteq> []"
proof -
  from assms(2) obtain f where f: "f \<in> set fs" by (cases fs) auto
  then have "JStr f \<in> set (fst (process_stream loads ls e))" using assms(1) by simp
  from process_stream_yields_truthy [OF this] have "f \<noteq> []" by simp
  with f show ?thesis by auto
qed

subsection \<open>The rate limiter\<close>

lemma chat_rejected:
  "now - last_request_time c < min_request_interval c \<Longrightarrow>
   chat loads c now msgs model stream net = (c, [], [], Some RateLimitExceeded)"
  by (simp add: chat_def)

lemma chat_accepted_client:
  "min_request_interval c \<le> now - last_request_time c \<Longrightarrow>
   fst (chat loads c now msgs model stream net) = c\<lparr>last_request_time := now\<rparr>"
  by (simp add: chat_def)

lemma contains_exn: "contains x k = Inl ex \<Longrightarrow> ex = TypeError"
  by (cases x) simp_all

lemma getitem_exn: "getitem x k = Inl ex \<Longrightarrow> ex = TypeError \<or> ex = KeyError"
  by (cases x) (simp_all split: option.splits)

lemma getitem0_exn: "getitem0 x = Inl ex \<Longrightarrow> ex = TypeError \<or> ex = KeyError \<or> ex = IndexError"
  by (cases x) (simp_all split: list.splits)

lemma py_len_exn: "py_len x = Inl ex \<Longrightarrow> ex = TypeError"
  by (cases x) simp_all

lemma dict_get_exn: "dict_get x k d = Inl ex \<Longrightarrow> ex = AttributeError"
  by (cases x) simp_all

lemma delta_content_exn:
  assumes "delta_content data = Inl ex"
  shows "ex \<in> {TypeError, KeyError, IndexError, AttributeError}"
  using assms
  by (auto simp: delta_content_def split: sum.splits bool.splits if_splits
      dest: contains_exn getitem_exn getitem0_exn py_len_exn dict_get_exn)

lemma message_content_exn:
  assumes "message_content data = Inl ex"
  shows "ex \<in> {TypeError, KeyError, IndexError}"
  using assms
  by (auto simp: message_content_def split: sum.splits dest: getitem_exn getitem0_exn)

lemma process_stream_step_exn:
  assumes "snd (process_stream loads (Line s # rest) e) = Some ex"
  shows "snd (process_stream loads rest e) = Some ex \<or> (\<exists>data. delta_content data = Inl ex)"
  using assms
  by (auto simp: case_prod_beta split: if_splits option.splits sum.splits)

lemma process_stream_exn:
  "snd (process_stream loads ls e) = Some ex \<Longrightarrow>
   ex \<in> {TypeError, KeyError, IndexError, AttributeError, UnicodeDecodeError, RequestException}"
proof (induction ls)
  case Nil
  then show ?case by (cases e) simp_all
next
  case (Cons l ls)
  show ?case
  proof (cases l)
    case BadUtf8
    with Cons.prems show ?thesis by simp
  next
    case (Line s)
    with Cons.prems have "snd (process_stream loads (Line s # ls) e) = Some ex" by simp
    from process_stream_step_exn [OF this] show ?thesis
    proof
      assume "snd (process_stream loads ls e) = Some ex"
      then show ?thesis by (rule Cons.IH)
    next
      assume "\<exists>data. delta_content data = Inl ex"
      then obtain data where "delta_content data = Inl ex" by blast
      from delta_content_exn [OF this] show ?thesis by auto
    qed
  qed
qed

lemma chat_accepted_not_rate_limited:
  assumes "min_request_interval c \<le> now - last_request_time c"
  shows "snd (snd (snd (chat loads c now msgs model stream net))) \<noteq> Some RateLimitExceeded"
proof (cases net)
  case PostRaises
  with assms show ?thesis by (simp add: chat_def)
next
  case (Responds r)
  show ?thesis
  proof (cases "truthy stream")
    case True
    have "snd (process_stream loads (resp_lines r) (resp_end r)) \<noteq> Some RateLimitExceeded"
      using process_stream_exn by fastforce
    moreover have "\<And>x. chat_except x = RateLimitExceeded \<Longrightarrow> x = RateLimitExceeded"
      by (case_tac x) simp_all
    ultimately show ?thesis
      using assms Responds True
      by (auto simp: chat_def case_prod_beta)
  next
    case False
    show ?thesis
    proof (cases "message_content (resp_json r)")
      case (Inl x)
      from message_content_exn [OF Inl] have "chat_except x \<noteq> RateLimitExceeded" by auto
      with assms Responds False Inl show ?thesis by (simp add: chat_def)
    next
      case (Inr y)
      with assms Responds False show ?thesis by (simp add: chat_def)
    qed
  qed
qed

lemma chat_seq_rejected:
  assumes "\<forall>k \<in> set ks. call_time k - last_request_time c < min_request_interval c"
  shows "chat_seq loads c ks = c"
  using assms by (induction ks) (simp_all add: chat_rejected)

text \<open>
  Claim C5, as amended. When a call on a client was accepted by the rate check at time
  \<open>t1\<close> (it issued its POST) and the next call comes at \<open>t2\<close> less than the minimum
  interval after \<open>t1\<close>, the next call raises the rate-limit error, issues no POST,
  yields nothing and leaves the client as it was. A new client's minimum interval is 1.
\<close>

theorem rate_limit_after_accepted_call:
  assumes "min_request_interval c \<le> t1 - last_request_time c"
    and "t2 - t1 < min_request_interval c"
  shows "chat loads (fst (chat loads c t1 msgs1 model1 stream1 net1)) t2 msgs2 model2 stream2 net2
           = (fst (chat loads c t1 msgs1 model1 stream1 net1), [], [], Some RateLimitExceeded)
       \<and> fst (snd (chat loads c t1 msgs1 model1 stream1 net1)) \<noteq> []
       \<and> min_request_interval (new_client key) = 1"
proof -
  let ?c1 = "fst (chat loads c t1 msgs1 model1 stream1 net1)"
  have c1: "?c1 = c\<lparr>last_request_time := t1\<rparr>"
    using assms(1) by (rule chat_accepted_client)
  have "t2 - last_request_time ?c1 < min_request_interval ?c1"
    using assms(2) by (simp add: c1)
  from chat_rejected [OF this] have "chat loads ?c1 t2 msgs2 model2 stream2 net2
           = (?c1, [], [], Some RateLimitExceeded)" .
  moreover have "fst (snd (chat loads c t1 msgs1 model1 stream1 net1)) \<noteq> []"
    using assms(1) by (simp add: chat_def)
  ultimately show ?thesis by (simp add: new_client_def)
qed

text \<open>
  Claim C10. A call rejected by the rate check leaves the client unchanged and issues no
  POST; so after any number of calls that each come too early after the last accepted one,
  the client is still the same, and a call at least the minimum interval after the last
  accepted request passes the check: it records its time, issues one POST and does not
  raise the rate-limit error.
\<close>

theorem rejected_calls_keep_rate_state:
  assumes "\<forall>k \<in> set ks. call_time k - last_request_time c < min_request_interval c"
  shows "chat_seq loads c ks = c
       \<and> (now - last_request_time c < min_request_interval c \<longrightarrow>
            chat loads c now msgs model stream net = (c, [], [], Some RateLimitExceeded))
       \<and> (min_request_interval c \<le> t - last_request_time c \<longrightarrow>
            fst (chat loads (chat_seq loads c ks) t msgs model stream net) = c\<lparr>last_request_time := t\<rparr>
            \<and> length (fst (snd (chat loads (chat_seq loads c ks) t msgs model stream net))) = 1
            \<and> snd (snd (snd (chat loads (chat_seq loads c ks) t msgs model stream net)))
                 \<noteq> Some RateLimitExceeded)"
proof -
  have s: "chat_seq loads c ks = c" using assms by (rule chat_seq_rejected)
  show ?thesis
    unfolding s
    using chat_accepted_not_rate_limited [of c t loads msgs model stream net]
    by (auto simp: chat_rejected chat_accepted_client) (simp add: chat_def)
qed

text \<open>The clients of the examples.\<close>

lemma accepted_client_eq:
  "accepted_client = \<lparr>api_key = ascii ''sk-1'', last_request_time = 1000, min_request_interval = 1\<rparr>"
  by (simp add: accepted_client_def chat_def new_client_def call_at_def)

lemma busy_client_eq: "busy_client = accepted_client"
  by (simp add: busy_client_def accepted_client_eq chat_def call_at_def)

text \<open>Claim C5's theorem on a new client: a call at 1000 is accepted, one at 1000.5 is rejected.\<close>

theorem rate_limit_after_accepted_call_witness:
  "min_request_interval (new_client (ascii ''sk-1'')) \<le> 1000 - last_request_time (new_client (ascii ''sk-1''))
   \<and> (1000.5::real) - 1000 < min_request_interval (new_client (ascii ''sk-1''))
   \<and> chat demo_loads accepted_client 1000.5 [json_of_message hi_message] (JStr (ascii ''deepseek-chat''))
         (JBool True) (Responds demo_response)
       = (accepted_client, [], [], Some RateLimitExceeded)"
proof -
  have h1: "min_request_interval (new_client (ascii ''sk-1'')) \<le> 1000 - last_request_time (new_client (ascii ''sk-1''))"
    by (simp add: new_client_def)
  have h2: "(1000.5::real) - 1000 < min_request_interval (new_client (ascii ''sk-1''))"
    by (simp add: new_client_def)
  have a: "accepted_client = fst (chat demo_loads (new_client (ascii ''sk-1'')) 1000
      [json_of_message hi_message] (JStr (ascii ''deepseek-chat'')) (JBool True) (Responds demo_response))"
    by (simp add: accepted_client_def call_at_def)
  from rate_limit_after_accepted_call [OF h1 h2, where loads = demo_loads
      and ?msgs1.0 = "[json_of_message hi_message]" and ?model1.0 = "JStr (ascii ''deepseek-chat'')"
      and ?stream1.0 = "JBool True" and ?net1.0 = "Responds demo_response"
      and ?msgs2.0 = "[json_of_message hi_message]" and ?model2.0 = "JStr (ascii ''deepseek-chat'')"
      and ?stream2.0 = "JBool True" and ?net2.0 = "Responds demo_response"]
  have "chat demo_loads accepted_client 1000.5 [json_of_message hi_message] (JStr (ascii ''deepseek-chat''))
         (JBool True) (Responds demo_response)
       = (accepted_client, [], [], Some RateLimitExceeded)"
    unfolding a [symmetric] by simp
  with h1 h2 show ?thesis by simp
qed

text \<open>
  Claim C5 as stated fails for a pair whose first call was itself rejected: after an
  accepted call at 1000, the call at 1000.9 is rejected and the call at 1001.5, less than
  one second later, passes the rate check and issues its POST.
\<close>

theorem rejected_call_does_not_block_next:
  "chat demo_loads accepted_client 1000.9 [json_of_message hi_message] (JStr (ascii ''deepseek-chat''))
         (JBool True) (Responds demo_response)
       = (busy_client, [], [], Some RateLimitExceeded)
   \<and> (1001.5::real) - 1000.9 < min_request_interval busy_client
   \<and> length (fst (snd (chat demo_loads busy_client 1001.5 [json_of_message hi_message]
         (JStr (ascii ''deepseek-chat'')) (JBool True) (Responds demo_response)))) = 1
   \<and> snd (snd (snd (chat demo_loads busy_client 1001.5 [json_of_message hi_message]
         (JStr (ascii ''deepseek-chat'')) (JBool True) (Responds demo_response)))) \<noteq> Some RateLimitExceeded"
proof -
  have 1: "chat demo_loads accepted_client 1000.9 [json_of_message hi_message] (JStr (ascii ''deepseek-chat''))
         (JBool True) (Responds demo_response)
       = (busy_client, [], [], Some RateLimitExceeded)"
    unfolding busy_client_eq by (rule chat_rejected) (simp add: accepted_client_eq)
  have 2: "(1001.5::real) - 1000.9 < min_request_interval busy_client"
    by (simp add: busy_client_eq accepted_client_eq)
  have ok: "min_request_interval busy_client \<le> 1001.5 - last_request_time busy_client"
    by (simp add: busy_client_eq accepted_client_eq)
  have 3: "length (fst (snd (chat demo_loads busy_client 1001.5 [json_of_message hi_message]
         (JStr (ascii ''deepseek-chat'')) (JBool True) (Responds demo_response)))) = 1"
    using ok by (simp add: chat_def)
  have 4: "snd (snd (snd (chat demo_loads busy_client 1001.5 [json_of_message hi_message]
         (JStr (ascii ''deepseek-chat'')) (JBool True) (Responds demo_response)))) \<noteq> Some RateLimitExceeded"
    using ok by (rule chat_accepted_not_rate_limited)
  show ?thesis using 1 2 3 4 by blast
qed

text \<open>
  Claim C10's theorem after an accepted call at 1000: calls at 1000.2 and 1000.9 are
  rejected and change nothing, and the call at 1001 passes the rate check.
\<close>

theorem rejected_calls_keep_rate_state_witness:
  "list_all (\<lambda>k. call_time k - last_request_time accepted_client < min_request_interval accepted_client)
      [call_at 1000.2, call_at 1000.9]
   \<and> chat_seq demo_loads accepted_client [call_at 1000.2, call_at 1000.9] = accepted_client
   \<and> chat demo_loads accepted_client 1000.9 [] JNull JNull PostRaises
        = (accepted_client, [], [], Some RateLimitExceeded)
   \<and> last_request_time (fst (chat demo_loads
          (chat_seq demo_loads accepted_client [call_at 1000.2, call_at 1000.9]) 1001 [] JNull JNull PostRaises))
        = 1001
   \<and> snd (snd (chat demo_loads
          (chat_seq demo_loads accepted_client [call_at 1000.2, call_at 1000.9]) 1001 [] JNull JNull PostRaises))
        = ([], Some ConnectionError)"
proof -
  have h: "\<forall>k \<in> set [call_at 1000.2, call_at 1000.9].
      call_time k - last_request_time accepted_client < min_request_interval accepted_client"
    by (simp add: call_at_def accepted_client_eq)
  have a: "(1000.9::real) - last_request_time accepted_client < min_request_interval accepted_client"
    by (simp add: accepted_client_eq)
  have b: "min_request_interval accepted_client \<le> 1001 - last_request_time accepted_client"
    by (simp add: accepted_client_eq)
  note t = rejected_calls_keep_rate_state [OF h, where loads = demo_loads and now = "1000.9" and msgs = "[]"
      and model = JNull and stream = JNull and net = PostRaises and t = 1001]
  have 1: "chat_seq demo_loads accepted_client [call_at 1000.2, call_at 1000.9] = accepted_client"
    using t by blast
  have 2: "chat demo_loads accepted_client 1000.9 [] JNull JNull PostRaises
        = (accepted_client, [], [], Some RateLimitExceeded)"
    using t a by blast
  have 3: "fst (chat demo_loads
          (chat_seq demo_loads accepted_client [call_at 1000.2, call_at 1000.9]) 1001 [] JNull JNull PostRaises)
        = accepted_client\<lparr>last_request_time := 1001\<rparr>"
    using t b by blast
  have 4: "snd (snd (chat demo_loads
          (chat_seq demo_loads accepted_client [call_at 1000.2, call_at 1000.9]) 1001 [] JNull JNull PostRaises))
        = ([], Some ConnectionError)"
    unfolding 1 using b by (simp add: chat_def)
  show ?thesis using h 1 2 3 4 by (simp add: list_all_iff)
qed

subsection \<open>The exchange\<close>

text \<open>\<open>get\<close> on a key without a dot: the configured value, else the default, else \<open>None\<close>.\<close>

lemma get_plain_key:
  assumes "split_on 46 key = [key]"
  shows "get cm key = Inr (case map_of (config cm) key of
                             Some v \<Rightarrow> v
                           | None \<Rightarrow> (case map_of DEFAULT_CONFIG key of None \<Rightarrow> JNull | Some v \<Rightarrow> v))"
proof (cases "map_of (config cm) key")
  case None
  from key_not_in_dict [OF None] None assms show ?thesis by (simp add: get_def)
next
  case (Some v)
  from key_in_dict [OF Some] Some assms show ?thesis by (simp add: get_def)
qed

lemma split_on_stream: "split_on 46 (ascii ''stream'') = [ascii ''stream'']"
  by (simp add: ascii_def)

lemma split_on_model: "split_on 46 (ascii ''model'') = [ascii ''model'']"
  by (simp add: ascii_def)

lemma config_save_config [simp]: "config (save_config cm) = config cm"
  by (simp add: save_config_def split: write_fault.splits)

lemma fault_save_config [simp]: "fault (save_config cm) = fault cm"
  by (simp add: save_config_def split: write_fault.splits)

lemma fault_get_user_info [simp]: "fault (get_user_info cm) = fault cm"
  by (simp add: get_user_info_def)

lemma fault_save_current_session [simp]: "fault (save_current_session cm x) = fault cm"
  by (simp add: save_current_session_def)

lemma stream_lookup_kept:
  "map_of (config (save_current_session (get_user_info cm) x)) (ascii ''stream'')
     = map_of (config cm) (ascii ''stream'')"
  by (simp add: save_current_session_def get_user_info_def update_conv' ascii_def)

lemma get_value_stream_kept:
  "get_value (save_current_session (get_user_info cm) x) (ascii ''stream'')
     = get_value cm (ascii ''stream'')"
  by (simp add: get_value_def get_plain_key [OF split_on_stream] stream_lookup_kept)

lemma stored_session_saved [simp]: "stored_session (save_current_session cm x) = Some x"
  by (simp add: stored_session_def save_current_session_def update_conv')

lemma saved_session_saved:
  "fault cm = NoFault \<Longrightarrow> saved_session (save_current_session cm x) = Some x"
  by (simp add: saved_session_def save_current_session_def save_config_def update_conv')

lemma emit_all_strs: "emit_all (map JStr fs) x = (map ResponseReceived fs, x)"
  by (induction fs) simp_all

lemma deliver_fragments:
  "foldl deliver a (map ResponseReceived fs) = a\<lparr>current_response := current_response a @ concat fs\<rparr>"
  by (induction fs arbitrary: a) (simp_all add: update_response_def)

lemma run_failed_stream:
  assumes "truthy (thread_stream t)"
    and "min_request_interval c \<le> now - last_request_time c"
    and "process_stream loads (resp_lines r) (resp_end r) = (map JStr fs, Some RequestException)"
  shows "snd (snd (run loads c now (Responds r) None t))
           = map ResponseReceived fs @ [ErrorOccurred (NetworkErrorMsg ConnectionError), RequestFinished]"
  using assms
  by (simp add: run_def chat_def stream_loop_def emit_all_strs error_message_def)

lemma run_finished_stream:
  assumes "truthy (thread_stream t)"
    and "min_request_interval c \<le> now - last_request_time c"
    and "process_stream loads (resp_lines r) (resp_end r) = (map JStr fs, None)"
  shows "snd (snd (run loads c now (Responds r) None t)) = map ResponseReceived fs @ [RequestFinished]"
  using assms
  by (simp add: run_def chat_def stream_loop_def emit_all_strs)

lemma send_message_starts:
  assumes "client a = Some c" and "strip (input_entry a) \<noteq> []"
  shows "send_message a =
     a\<lparr>input_entry := [],
       messages := messages a @ [role_message ''user'' (strip (input_entry a))],
       config_manager := save_current_session (get_user_info (config_manager a))
          (JList (messages a @ [role_message ''user'' (strip (input_entry a))])),
       streaming := True,
       current_response := [],
       stop_button_enabled := True,
       send_button_enabled := False,
       api_thread := Some \<lparr>thread_messages = messages a @ [role_message ''user'' (strip (input_entry a))],
          thread_model = get_value (save_current_session (get_user_info (config_manager a))
             (JList (messages a @ [role_message ''user'' (strip (input_entry a))]))) (ascii ''model''),
          thread_stream = get_value (config_manager a) (ascii ''stream''),
          stop_requested = False\<rparr>,
       started := started a @ [\<lparr>thread_messages = messages a @ [role_message ''user'' (strip (input_entry a))],
          thread_model = get_value (save_current_session (get_user_info (config_manager a))
             (JList (messages a @ [role_message ''user'' (strip (input_entry a))]))) (ascii ''model''),
          thread_stream = get_value (config_manager a) (ascii ''stream''),
          stop_requested = False\<rparr>]\<rparr>"
  using assms by (simp add: send_message_def Let_def get_value_stream_kept)

text \<open>
  Claim C7. A message is sent (a client is configured, the input is not blank, streaming
  is on, the rate check passes); the stream yields the fragments \<open>fs\<close>, at least one, and
  then the transport fails. The worker emits the fragments in order, then the error, then
  \<open>request_finished\<close>; and once the main thread has handled these signals, the
  conversation is the old one followed by the user message and one assistant message
  holding the accumulated text, the store holds that conversation (and so does the file
  when writes succeed), \<open>streaming\<close> is off again with the Send button enabled, and the
  network error has been shown.
\<close>

theorem failure_finalizes_partial_reply:
  assumes "client a = Some c"
    and "strip (input_entry a) \<noteq> []"
    and "truthy (get_value (config_manager a) (ascii ''stream''))"
    and "min_request_interval c \<le> now - last_request_time c"
    and "process_stream loads (resp_lines r) (resp_end r) = (map JStr fs, Some RequestException)"
    and "fs \<noteq> []"
  shows "worker_signals loads now (Responds r) None (send_message a)
           = map ResponseReceived fs @ [ErrorOccurred (NetworkErrorMsg ConnectionError), RequestFinished]
       \<and> messages (foldl deliver (send_message a) (worker_signals loads now (Responds r) None (send_message a)))
           = messages a @ [role_message ''user'' (strip (input_entry a)), role_message ''assistant'' (concat fs)]
       \<and> stored_session (config_manager
             (foldl deliver (send_message a) (worker_signals loads now (Responds r) None (send_message a))))
           = Some (JList (messages a @
               [role_message ''user'' (strip (input_entry a)), role_message ''assistant'' (concat fs)]))
       \<and> (fault (config_manager a) = NoFault \<longrightarrow>
            saved_session (config_manager
             (foldl deliver (send_message a) (worker_signals loads now (Responds r) None (send_message a))))
           = Some (JList (messages a @
               [role_message ''user'' (strip (input_entry a)), role_message ''assistant'' (concat fs)])))
       \<and> \<not> streaming (foldl deliver (send_message a) (worker_signals loads now (Responds r) None (send_message a)))
       \<and> send_button_enabled
            (foldl deliver (send_message a) (worker_signals loads now (Responds r) None (send_message a)))
       \<and> alerts (foldl deliver (send_message a) (worker_signals loads now (Responds r) None (send_message a)))
           = alerts a @ [ApiError (NetworkErrorMsg ConnectionError)]"
proof -
  note sm = send_message_starts [OF assms(1,2)]
  have sigs: "worker_signals loads now (Responds r) None (send_message a)
           = map ResponseReceived fs @ [ErrorOccurred (NetworkErrorMsg ConnectionError), RequestFinished]"
    unfolding sm using assms(1,3,4,5)
    by (simp add: worker_signals_def run_failed_stream)
  show ?thesis
    unfolding sigs
    using fragments_not_empty [OF assms(5,6)]
    by (simp add: deliver_fragments on_api_error_def on_request_finished_def Let_def sm saved_session_saved)
qed

text \<open>Facts about the example window and the example responses.\<close>

lemma strip_hi: "strip (ascii ''hi'') = ascii ''hi''"
  by (simp add: strip_def is_space_def ascii_def)

lemma strip_a: "strip (ascii ''a'') = ascii ''a''"
  by (simp add: strip_def is_space_def ascii_def)

lemma strip_b: "strip (ascii ''b'') = ascii ''b''"
  by (simp add: strip_def is_space_def ascii_def)

lemma demo_app_stream: "get_value (config_manager demo_app) (ascii ''stream'') = JBool True"
proof -
  have "map_of (config (config_manager demo_app)) (ascii ''stream'') = Some (JBool True)"
    by (simp add: demo_app_def new_manager_def load_config_obj) (simp add: DEFAULT_CONFIG_def ascii_def)
  then show ?thesis
    by (simp add: get_value_def get_plain_key [OF split_on_stream])
qed

lemma broken_stream:
  "process_stream demo_loads (resp_lines broken_response) (resp_end broken_response)
     = (map JStr [ascii ''Hel'', ascii ''lo''], Some RequestException)"
  by (simp add: broken_response_def data_str_def strip_def is_space_def startswith_def demo_loads_def
      delta_content_def delta_record_def ascii_def)

text \<open>
  Claim C7's theorem on the example window: the user sends \<open>hi\<close>, the fragments \<open>Hel\<close>
  and \<open>lo\<close> arrive, then the connection breaks.
\<close>

theorem failure_finalizes_partial_reply_witness:
  "worker_signals demo_loads 1000 (Responds broken_response) None
       (send_message (demo_app\<lparr>input_entry := ascii ''hi''\<rparr>))
     = [ResponseReceived (ascii ''Hel''), ResponseReceived (ascii ''lo''),
        ErrorOccurred (NetworkErrorMsg ConnectionError), RequestFinished]
   \<and> messages (foldl deliver (send_message (demo_app\<lparr>input_entry := ascii ''hi''\<rparr>))
        (worker_signals demo_loads 1000 (Responds broken_response) None
           (send_message (demo_app\<lparr>input_entry := ascii ''hi''\<rparr>))))
     = [role_message ''user'' (ascii ''hi''), role_message ''assistant'' (ascii ''Hello'')]
   \<and> saved_session (config_manager (foldl deliver (send_message (demo_app\<lparr>input_entry := ascii ''hi''\<rparr>))
        (worker_signals demo_loads 1000 (Responds broken_response) None
           (send_message (demo_app\<lparr>input_entry := ascii ''hi''\<rparr>)))))
     = Some (JList [role_message ''user'' (ascii ''hi''), role_message ''assistant'' (ascii ''Hello'')])
   \<and> \<not> streaming (foldl deliver (send_message (demo_app\<lparr>input_entry := ascii ''hi''\<rparr>))
        (worker_signals demo_loads 1000 (Responds broken_response) None
           (send_message (demo_app\<lparr>input_entry := ascii ''hi''\<rparr>))))
   \<and> alerts (foldl deliver (send_message (demo_app\<lparr>input_entry := ascii ''hi''\<rparr>))
        (worker_signals demo_loads 1000 (Responds broken_response) None
           (send_message (demo_app\<lparr>input_entry := ascii ''hi''\<rparr>))))
     = [ApiError (NetworkErrorMsg ConnectionError)]"
proof -
  let ?a = "demo_app\<lparr>input_entry := ascii ''hi''\<rparr>"
  have h1: "client ?a = Some (new_client (ascii ''sk-1''))" by (simp add: demo_app_def)
  have h2: "strip (input_entry ?a) \<noteq> []" by (simp add: strip_hi) (simp add: ascii_def)
  have h3: "truthy (get_value (config_manager ?a) (ascii ''stream''))" by (simp add: demo_app_stream)
  have h4: "min_request_interval (new_client (ascii ''sk-1'')) \<le> 1000 - last_request_time (new_client (ascii ''sk-1''))"
    by (simp add: new_client_def)
  have h6: "[ascii ''Hel'', ascii ''lo''] \<noteq> []" by simp
  have f: "fault (config_manager ?a) = NoFault" by (simp add: demo_app_def new_manager_def)
  have al: "alerts ?a = []" and ms: "messages ?a = []" by (simp_all add: demo_app_def)
  have cc: "concat [ascii ''Hel'', ascii ''lo''] = ascii ''Hello''" by (simp add: ascii_def)
  have ie: "strip (input_entry ?a) = ascii ''hi''" by (simp add: strip_hi)
  note t = failure_finalizes_partial_reply [OF h1 h2 h3 h4 broken_stream h6,
      unfolded ie ms al cc list.map append_Nil append_Cons]
  from t f show ?thesis by blast
qed

text \<open>
  \<open>send_message\<close> starts a worker whenever a client is configured and the input is not
  blank, whatever \<open>streaming\<close> is.
\<close>

lemma send_message_ignores_streaming:
  assumes "client a = Some c" and "strip (input_entry a) \<noteq> []"
  shows "length (started (send_message a)) = Suc (length (started a))
       \<and> streaming (send_message a)
       \<and> \<not> send_button_enabled (send_message a)
       \<and> client (send_message a) = Some c
       \<and> messages (send_message a) = messages a @ [role_message ''user'' (strip (input_entry a))]"
  unfolding send_message_starts [OF assms] using assms(1) by simp

text \<open>
  An exchange that ends by normal completion commits the accumulated reply once; one that
  the user stops commits it in \<open>stop_streaming\<close> and again in \<open>on_request_finished\<close>.
\<close>

lemma completion_commits_once:
  assumes "client a = Some c" and "strip (input_entry a) \<noteq> []" and "concat fs \<noteq> []"
  shows "messages (foldl deliver (send_message a) (map ResponseReceived fs @ [RequestFinished]))
           = messages a @ [role_message ''user'' (strip (input_entry a)), role_message ''assistant'' (concat fs)]"
  using assms(3)
  by (simp add: deliver_fragments on_request_finished_def Let_def send_message_starts [OF assms(1,2)])

lemma handle_fragments:
  "foldl handle a (map (\<lambda>f. Worker (ResponseReceived f)) fs)
     = a\<lparr>current_response := current_response a @ concat fs\<rparr>"
  by (induction fs arbitrary: a) (simp_all add: update_response_def)

lemma stop_then_finish_commits_twice:
  assumes "client a = Some c" and "strip (input_entry a) \<noteq> []" and "concat fs \<noteq> []"
  shows "messages (foldl handle (send_message a)
            (map (\<lambda>f. Worker (ResponseReceived f)) fs @ [ClickStop, Worker RequestFinished]))
           = messages a @ [role_message ''user'' (strip (input_entry a)),
                           role_message ''assistant'' (concat fs),
                           role_message ''assistant'' (concat fs)]
       \<and> stored_session (config_manager (foldl handle (send_message a)
            (map (\<lambda>f. Worker (ResponseReceived f)) fs @ [ClickStop, Worker RequestFinished])))
           = Some (JList (messages a @ [role_message ''user'' (strip (input_entry a)),
                           role_message ''assistant'' (concat fs),
                           role_message ''assistant'' (concat fs)]))"
  using assms(3)
  by (simp add: handle_fragments stop_streaming_def on_request_finished_def Let_def
      send_message_starts [OF assms(1,2)])

lemma demo_stream:
  "process_stream demo_loads demo_lines EndOfStream = (map JStr [ascii ''Hel'', ascii ''lo''], None)"
proof -
  have h1: "\<forall>l \<in> set demo_lines. data_line l"
    by (simp add: demo_lines_def startswith_def ascii_def)
  have h2: "\<forall>p \<in> set (before_done (payloads demo_lines)). undecodable demo_loads p \<or> well_formed demo_loads p"
    by (simp add: demo_facts)
  have d: "content_deltas demo_loads demo_lines = [ascii ''Hel'', ascii ''lo'']"
    by (simp add: content_deltas_def demo_facts) (simp add: ascii_def)
  show ?thesis
    unfolding process_stream_decodes [OF h1 h2] d by simp
qed

lemma demo_worker_stopped:
  assumes "client a = Some (new_client (ascii ''sk-1''))"
    and "api_thread a = Some t" and "truthy (thread_stream t)"
  shows "worker_signals demo_loads 1000 (Responds demo_response) (Some 1) a
           = [ResponseReceived (ascii ''Hel''), RequestFinished]"
  using assms
  by (simp add: worker_signals_def run_def chat_def new_client_def demo_response_def demo_stream
      stream_loop_def)

text \<open>
  Claim C1 on the code, at an exchange that the user stops. The user sends \<open>hi\<close>, the
  fragment \<open>Hel\<close> arrives, the user clicks Stop; the worker finds the flag set at its next
  chunk, breaks and emits \<open>request_finished\<close>. The assistant message \<open>Hel\<close> is then in
  the conversation, and in the store, twice.
\<close>

theorem stop_commits_reply_twice:
  "worker_signals demo_loads 1000 (Responds demo_response) (Some 1)
       (foldl handle demo_app [TypeText (ascii ''hi''), ReturnPressed])
     = [ResponseReceived (ascii ''Hel''), RequestFinished]
   \<and> messages (foldl handle demo_app
        [TypeText (ascii ''hi''), ReturnPressed,
         Worker (ResponseReceived (ascii ''Hel'')), ClickStop, Worker RequestFinished])
     = [role_message ''user'' (ascii ''hi''),
        role_message ''assistant'' (ascii ''Hel''),
        role_message ''assistant'' (ascii ''Hel'')]
   \<and> stored_session (config_manager (foldl handle demo_app
        [TypeText (ascii ''hi''), ReturnPressed,
         Worker (ResponseReceived (ascii ''Hel'')), ClickStop, Worker RequestFinished]))
     = Some (JList [role_message ''user'' (ascii ''hi''),
        role_message ''assistant'' (ascii ''Hel''),
        role_message ''assistant'' (ascii ''Hel'')])"
proof -
  let ?a = "demo_app\<lparr>input_entry := ascii ''hi''\<rparr>"
  have h1: "client ?a = Some (new_client (ascii ''sk-1''))" by (simp add: demo_app_def)
  have ie: "strip (input_entry ?a) = ascii ''hi''" by (simp add: strip_hi)
  have h2: "strip (input_entry ?a) \<noteq> []" unfolding ie by (simp add: ascii_def)
  have h3: "concat [ascii ''Hel''] \<noteq> []" by (simp add: ascii_def)
  have ms: "messages ?a = []" by (simp add: demo_app_def)
  have st: "get_value (config_manager ?a) (ascii ''stream'') = JBool True"
    by (simp add: demo_app_stream)
  have 1: "worker_signals demo_loads 1000 (Responds demo_response) (Some 1) (send_message ?a)
     = [ResponseReceived (ascii ''Hel''), RequestFinished]"
  proof (rule demo_worker_stopped)
    show "client (send_message ?a) = Some (new_client (ascii ''sk-1''))"
      using send_message_ignores_streaming [OF h1 h2] by simp
    show "api_thread (send_message ?a) =
        Some \<lparr>thread_messages = messages ?a @ [role_message ''user'' (strip (input_entry ?a))],
          thread_model = get_value (save_current_session (get_user_info (config_manager ?a))
             (JList (messages ?a @ [role_message ''user'' (strip (input_entry ?a))]))) (ascii ''model''),
          thread_stream = get_value (config_manager ?a) (ascii ''stream''),
          stop_requested = False\<rparr>"
      unfolding send_message_starts [OF h1 h2] by simp
    show "truthy (thread_stream \<lparr>thread_messages = messages ?a @ [role_message ''user'' (strip (input_entry ?a))],
          thread_model = get_value (save_current_session (get_user_info (config_manager ?a))
             (JList (messages ?a @ [role_message ''user'' (strip (input_entry ?a))]))) (ascii ''model''),
          thread_stream = get_value (config_manager ?a) (ascii ''stream''),
          stop_requested = False\<rparr>)"
      by (simp add: demo_app_stream)
  qed
  note t = stop_then_finish_commits_twice [OF h1 h2 h3, unfolded ie ms append_Nil]
  from 1 t show ?thesis by simp
qed

text \<open>
  Claim C2 on the code. While the exchange started by \<open>a\<close> is streaming, the Send button
  is disabled and a click on it starts nothing, but Return in the input line runs
  \<open>send_message\<close> again: a second worker is started, \<open>streaming\<close> stays on, and the
  conversation holds both user messages.
\<close>

theorem return_key_starts_second_worker:
  "streaming (foldl handle demo_app [TypeText (ascii ''a''), ReturnPressed])
   \<and> \<not> send_button_enabled (foldl handle demo_app [TypeText (ascii ''a''), ReturnPressed])
   \<and> length (started (foldl handle demo_app [TypeText (ascii ''a''), ReturnPressed])) = 1
   \<and> length (started (foldl handle demo_app
        [TypeText (ascii ''a''), ReturnPressed, TypeText (ascii ''b''), ClickSend])) = 1
   \<and> length (started (foldl handle demo_app
        [TypeText (ascii ''a''), ReturnPressed, TypeText (ascii ''b''), ReturnPressed])) = 2
   \<and> streaming (foldl handle demo_app
        [TypeText (ascii ''a''), ReturnPressed, TypeText (ascii ''b''), ReturnPressed])
   \<and> messages (foldl handle demo_app
        [TypeText (ascii ''a''), ReturnPressed, TypeText (ascii ''b''), ReturnPressed])
     = [role_message ''user'' (ascii ''a''), role_message ''user'' (ascii ''b'')]"
proof -
  let ?a = "demo_app\<lparr>input_entry := ascii ''a''\<rparr>"
  let ?b = "(send_message ?a)\<lparr>input_entry := ascii ''b''\<rparr>"
  have a1: "client ?a = Some (new_client (ascii ''sk-1''))" by (simp add: demo_app_def)
  have a2: "strip (input_entry ?a) \<noteq> []" by (simp add: strip_a) (simp add: ascii_def)
  note first = send_message_ignores_streaming [OF a1 a2]
  have b1: "client ?b = Some (new_client (ascii ''sk-1''))" using first by simp
  have b2: "strip (input_entry ?b) \<noteq> []" by (simp add: strip_b) (simp add: ascii_def)
  note second = send_message_ignores_streaming [OF b1 b2]
  have sa: "started ?a = []" and ma: "messages ?a = []" by (simp_all add: demo_app_def)
  from first second show ?thesis
    by (simp add: sa ma strip_a strip_b)
qed

end
